theory Spec2Isabelle
  imports Complex_Main "HOL-Library.Product_Lexorder" "HOL-Library.List_Lexorder"
begin

unbundle bit_operations_syntax

section \<open>The keyword-acquisition client of automation/trends.py\<close>

text \<open>
  The theory embeds \<^verbatim>\<open>TrendClient\<close> of \<^verbatim>\<open>src/automation/trends.py\<close>: the cache
  reader and writer, the retrying fetch from the primary source, the suggestion backup, the
  backfill from older cache files, the default keywords and the fallback chain
  \<^verbatim>\<open>get_daily_keywords\<close> that ties them together.

  Conventions of the embedding.
  \<^item> A Python \<^verbatim>\<open>str\<close> is the list of its code points (\<open>pystr\<close>); \<open>u\<close> turns an
    ASCII literal into one.
  \<^item> A Python \<^verbatim>\<open>float\<close> is a \<open>real\<close>: rounding, infinities and NaN are not modelled,
    so an equation between delays is one between the exact values.
  \<^item> A naive \<^verbatim>\<open>datetime\<close> is the number of microseconds since 0001-01-01 00:00:00,
    a \<^verbatim>\<open>date\<close> the number of days since 0001-01-01. The wall clock is read once per
    call: \<open>now\<close> is the same at every \<^verbatim>\<open>datetime.now()\<close> of one call.
  \<^item> Everything outside the program (the file system under the cache directory, the two
    web services, the random jitter) is a field of the record \<open>world\<close>, and may fail.
  \<^item> Functions of the Python library whose tables are not part of this repository
    (\<^verbatim>\<open>random.Random(seed).shuffle\<close>, \<^verbatim>\<open>strftime("%Y%m%d")\<close>, \<^verbatim>\<open>str.upper\<close>,
    \<^verbatim>\<open>str.lower\<close>, \<^verbatim>\<open>str\<close> of a decoded JSON value) are fields of the record \<open>pylib\<close>.
  \<^item> An exception is a value \<open>Inl e\<close>; every function that can raise returns a sum.
  \<^item> Effects are recorded as events. A function that only reads returns its result with
    the events it caused, in order; \<^verbatim>\<open>get_daily_keywords\<close>, which also writes,
    takes the state \<open>st\<close> (the cache directory and the trace so far) and returns it
    updated, also when the call raises.
  \<^item> \<^verbatim>\<open>_log\<close> prints a line and appends it to a log file. It swallows the failures of
    the append only; the embedding leaves \<^verbatim>\<open>_log\<close> out, and so takes the console to
    accept every line (\<^verbatim>\<open>print\<close> does not raise).
\<close>

subsection \<open>Strings, slices and library functions\<close>

type_synonym pystr = "nat list"

definition u :: "string \<Rightarrow> pystr" where
  "u s = map of_char s"

text \<open>\<^verbatim>\<open>xs[:n]\<close> for a Python integer \<open>n\<close>: a negative \<open>n\<close> counts from the end.\<close>

definition py_take :: "int \<Rightarrow> 'a list \<Rightarrow> 'a list" where
  "py_take n xs = (if 0 \<le> n then take (nat n) xs else take (length xs - nat (- n)) xs)"

text \<open>The code points for which \<^verbatim>\<open>str.isspace\<close> holds; \<^verbatim>\<open>str.strip()\<close> removes them
  at both ends.\<close>

definition is_space :: "nat \<Rightarrow> bool" where
  "is_space c = (c \<in> set [9, 10, 11, 12, 13, 28, 29, 30, 31, 32, 133, 160, 5760,
     8192, 8193, 8194, 8195, 8196, 8197, 8198, 8199, 8200, 8201, 8202,
     8232, 8233, 8239, 8287, 12288])"

definition strip :: "pystr \<Rightarrow> pystr" where
  "strip s = rev (dropWhile is_space (rev (dropWhile is_space s)))"

text \<open>\<^verbatim>\<open>s.split(",")\<close> with the separator \<open>c\<close>: always at least one piece.\<close>

fun py_split :: "nat \<Rightarrow> pystr \<Rightarrow> pystr list" where
  "py_split c [] = [[]]"
| "py_split c (x # xs) =
     (if x = c then [] # py_split c xs
      else (case py_split c xs of [] \<Rightarrow> [[x]] | y # ys \<Rightarrow> (x # y) # ys))"

text \<open>What \<^verbatim>\<open>json.load\<close> gives: a number without fraction or exponent is an \<^verbatim>\<open>int\<close>,
  any other number a \<^verbatim>\<open>float\<close>.\<close>

datatype json =
    JNull
  | JBool bool
  | JInt int
  | JNum real
  | JStr pystr
  | JArr "json list"
  | JObj "(pystr \<times> json) list"

record pylib =
  shuffle :: "int \<Rightarrow> pystr list \<Rightarrow> pystr list"
  yyyymmdd :: "int \<Rightarrow> int"
  upper :: "pystr \<Rightarrow> pystr"
  lower :: "nat \<Rightarrow> pystr"
  repr :: "json \<Rightarrow> pystr"

text \<open>\<^verbatim>\<open>str(x)\<close> of a decoded JSON value: a string is itself.\<close>

definition py_str :: "pylib \<Rightarrow> json \<Rightarrow> pystr" where
  "py_str L x = (case x of JStr s \<Rightarrow> s | _ \<Rightarrow> repr L x)"

text \<open>The truth value of a decoded JSON value, as \<^verbatim>\<open>or\<close> and \<^verbatim>\<open>if\<close> take it.\<close>

definition truthy :: "json \<Rightarrow> bool" where
  "truthy x = (case x of JNull \<Rightarrow> False | JBool b \<Rightarrow> b | JInt i \<Rightarrow> i \<noteq> 0 | JNum r \<Rightarrow> r \<noteq> 0
     | JStr s \<Rightarrow> s \<noteq> [] | JArr xs \<Rightarrow> xs \<noteq> [] | JObj kvs \<Rightarrow> kvs \<noteq> [])"

subsection \<open>Time\<close>

definition day_us :: int where
  "day_us = 86400000000"

text \<open>\<^verbatim>\<open>datetime.date()\<close>.\<close>

definition date_of :: "int \<Rightarrow> int" where
  "date_of t = t div day_us"

datatype exn =
  ValueError | OverflowError | RuntimeError | AttributeError | TypeError | IOError | PermissionError

text \<open>\<^verbatim>\<open>timedelta(days=n)\<close> raises OverflowError beyond 999999999 days.\<close>

definition timedelta_days :: "int \<Rightarrow> exn + int" where
  "timedelta_days n = (if \<bar>n\<bar> > 999999999 then Inl OverflowError else Inr (n * day_us))"

text \<open>\<^verbatim>\<open>datetime - timedelta\<close> raises OverflowError outside of the years 1 to 9999.\<close>

definition datetime_max :: int where
  "datetime_max = 3652059 * day_us - 1"

definition datetime_sub :: "int \<Rightarrow> int \<Rightarrow> exn + int" where
  "datetime_sub t d = (if t - d < 0 \<or> datetime_max < t - d then Inl OverflowError else Inr (t - d))"

subsection \<open>Configuration, client, world and state\<close>

record TrendConfig =
  cache_ttl_days :: int
  sleep_min :: real
  sleep_max :: real
  batch_size :: int
  region_default :: pystr
  backfill_days :: int
  allow_defaults :: bool
  use_naver_backup :: bool
  naver_seed :: pystr

record client =
  cfg :: TrendConfig
  pytrends_ok :: bool

text \<open>What \<^verbatim>\<open>trending_searches\<close> hands back: \<^verbatim>\<open>None\<close>, a frame whose \<^verbatim>\<open>empty\<close> is
  true, a frame with the values \<^verbatim>\<open>row[0]\<close> of its rows, or a frame whose rows cannot be
  read (\<^verbatim>\<open>iterrows\<close> or \<^verbatim>\<open>row[0]\<close> raises).\<close>

datatype cell = CStr pystr | COther

datatype frame = FNone | FEmpty | FRows "cell list" | FBroken

record response =
  status_code :: int
  body :: "exn + json"

text \<open>A file of the cache directory: the modification time (\<open>None\<close> when \<^verbatim>\<open>stat\<close> or
  \<^verbatim>\<open>fromtimestamp\<close> raises) and what \<^verbatim>\<open>json.load\<close> gives (\<open>None\<close> when opening or
  decoding raises).\<close>

record cachefile =
  mtime :: "int option"
  content :: "json option"

text \<open>The cache directory, by date: \<open>None\<close> when \<^verbatim>\<open>Path.exists()\<close> is false for the path of
  that date, \<open>Some (Inl e)\<close> when \<^verbatim>\<open>Path.exists()\<close> itself raises \<open>e\<close> (it passes on every
  error of \<^verbatim>\<open>stat\<close> other than a missing file, such as PermissionError for a directory that
  may not be searched), and \<open>Some (Inr f)\<close> for a file \<open>f\<close> that is there.\<close>

type_synonym files = "int \<Rightarrow> (exn + cachefile) option"

datatype write_outcome = WriteOk | OpenFails | DumpFails

record world =
  now :: int
  requests_ok :: bool
  trendreq :: "nat \<Rightarrow> exn option"
  trending_searches :: "nat \<Rightarrow> pystr \<Rightarrow> exn + frame"
  jitter :: "nat \<Rightarrow> real"
  http_get :: "nat \<Rightarrow> pystr \<Rightarrow> exn + response"
  write_outcome :: "int \<Rightarrow> write_outcome"

text \<open>The calls that leave the program, with their arguments. \<open>Sleep g\<close> is the call
  \<^verbatim>\<open>time.sleep(g)\<close>, also when it raises.\<close>

datatype event =
    CacheExists int
  | CacheStat int
  | CacheLoad int
  | CacheWrite int "pystr list"
  | TrendReq nat
  | TrendingSearches nat pystr
  | Sleep real
  | NaverGet pystr

record st =
  cache :: files
  trace :: "event list"

definition tell :: "event list \<Rightarrow> st \<Rightarrow> st" where
  "tell evs s = s\<lparr>trace := trace s @ evs\<rparr>"

subsection \<open>The cache\<close>

datatype reason = Fresh | MissNoFile | MissInvalid | MissStale | MissError

text \<open>Lines 158 to 173. The test \<^verbatim>\<open>p.exists()\<close> of line 160 stands before the \<^verbatim>\<open>try\<close>: what
  it raises leaves the function. Everything after it is inside the \<^verbatim>\<open>try\<close>.\<close>

definition read_cache_if_fresh ::
  "pylib \<Rightarrow> client \<Rightarrow> world \<Rightarrow> files \<Rightarrow> int \<Rightarrow>
     (exn + pystr list option \<times> reason) \<times> event list" where
  "read_cache_if_fresh L self w files d =
     (case files d of
        None \<Rightarrow> (Inr (None, MissNoFile), [CacheExists d])
      | Some (Inl e) \<Rightarrow> (Inl e, [CacheExists d])
      | Some (Inr f) \<Rightarrow>
          (case mtime f of
             None \<Rightarrow> (Inr (None, MissError), [CacheExists d, CacheStat d])
           | Some m \<Rightarrow>
               (case timedelta_days (cache_ttl_days (cfg self)) of
                  Inl e \<Rightarrow> (Inr (None, MissError), [CacheExists d, CacheStat d])
                | Inr ttl \<Rightarrow>
                    if now w - m \<le> ttl then
                      (case content f of
                         None \<Rightarrow> (Inr (None, MissError), [CacheExists d, CacheStat d, CacheLoad d])
                       | Some (JArr xs) \<Rightarrow>
                           (Inr (Some (map (py_str L) xs), Fresh),
                            [CacheExists d, CacheStat d, CacheLoad d])
                       | Some _ \<Rightarrow>
                           (Inr (None, MissInvalid), [CacheExists d, CacheStat d, CacheLoad d]))
                    else (Inr (None, MissStale), [CacheExists d, CacheStat d]))))"

text \<open>A write that fails on opening leaves the file as it was; one that fails while
  dumping leaves a file that no longer decodes. Neither failure is raised.\<close>

definition write_cache :: "world \<Rightarrow> int \<Rightarrow> pystr list \<Rightarrow> st \<Rightarrow> st" where
  "write_cache w d keywords s =
     (let s1 = tell [CacheWrite d keywords] s in
      case write_outcome w d of
        OpenFails \<Rightarrow> s1
      | DumpFails \<Rightarrow>
          s1\<lparr>cache := (cache s1)(d \<mapsto> Inr \<lparr>mtime = Some (now w), content = None\<rparr>)\<rparr>
      | WriteOk \<Rightarrow> s1\<lparr>cache := (cache s1)(d \<mapsto>
          Inr \<lparr>mtime = Some (now w), content = Some (JArr (map JStr keywords))\<rparr>)\<rparr>)"

subsection \<open>The primary source, with retries\<close>

definition pn_table :: "(pystr \<times> pystr list) list" where
  "pn_table =
     [(u ''KR'', [u ''south-korea'', u ''south_korea'', u ''korea'']),
      (u ''US'', [u ''united-states'', u ''united_states'', u ''united states'', u ''usa'']),
      (u ''JP'', [u ''japan'']),
      (u ''GB'', [u ''united-kingdom'', u ''united_kingdom'', u ''united kingdom'']),
      (u ''DE'', [u ''germany'']),
      (u ''FR'', [u ''france'']),
      (u ''IN'', [u ''india'']),
      (u ''BR'', [u ''brazil'']),
      (u ''CA'', [u ''canada'']),
      (u ''AU'', [u ''australia''])]"

text \<open>The loop that keeps the first occurrence of every candidate; \<open>seen\<close> is the set of
  the source, kept as a list.\<close>

fun uniq :: "'a list \<Rightarrow> 'a list \<Rightarrow> 'a list" where
  "uniq seen [] = []"
| "uniq seen (x # xs) = (if x \<notin> set seen then x # uniq (x # seen) xs else uniq seen xs)"

definition pn_candidates :: "pylib \<Rightarrow> pystr \<Rightarrow> pystr list" where
  "pn_candidates L region =
     (let r = upper L region;
          candidates = (case map_of pn_table r of Some c \<Rightarrow> c | None \<Rightarrow> [u ''south-korea'']);
          candidates = (if u ''worldwide'' \<notin> set candidates
                        then candidates @ [u ''worldwide''] else candidates)
      in uniq [] candidates)"

text \<open>The delay of lines 234 to 236, for the attempt that just failed and the jitter drawn.\<close>

definition backoff_gap :: "TrendConfig \<Rightarrow> nat \<Rightarrow> real \<Rightarrow> real" where
  "backoff_gap c attempt j =
     (let base_sleep = max (sleep_min c) 1;
          sleep_s = base_sleep * 2 ^ (attempt - 1)
      in min (max (sleep_s + j) (sleep_min c)) (sleep_max c * 4))"

text \<open>\<^verbatim>\<open>time.sleep\<close> first converts the length to a signed 64-bit number of nanoseconds
  and raises OverflowError when it does not fit (beyond about 9.2e9 seconds); it then raises
  ValueError on a negative length.\<close>

definition time_sleep :: "real \<Rightarrow> exn + unit" where
  "time_sleep g =
     (if g * 10 ^ 9 < - (2 ^ 63) \<or> 2 ^ 63 \<le> g * 10 ^ 9 then Inl OverflowError
      else if g < 0 then Inl ValueError
      else Inr ())"

text \<open>The inner loop over the candidates, for attempt \<open>k\<close>: the first candidate whose
  frame holds a string gives the items; a frame that cannot be read raises out of the sweep.\<close>

fun sweep :: "world \<Rightarrow> nat \<Rightarrow> pystr list \<Rightarrow> (exn + pystr list) \<times> event list" where
  "sweep w k [] = (Inr [], [])"
| "sweep w k (pn # pns) =
     (let (r, evs) =
        (case trending_searches w k pn of
           Inl e \<Rightarrow> sweep w k pns
         | Inr FNone \<Rightarrow> sweep w k pns
         | Inr FEmpty \<Rightarrow> sweep w k pns
         | Inr FBroken \<Rightarrow> (Inl TypeError, [])
         | Inr (FRows cells) \<Rightarrow>
             (let local = concat (map (\<lambda>v. case v of CStr t \<Rightarrow> [strip t] | COther \<Rightarrow> []) cells)
              in if local \<noteq> [] then (Inr local, []) else sweep w k pns))
      in (r, TrendingSearches k pn # evs))"

text \<open>The body of the outer \<^verbatim>\<open>try\<close> for attempt \<open>k\<close>: the items found, or the exception
  that the handler receives.\<close>

definition attempt_body :: "world \<Rightarrow> nat \<Rightarrow> pystr list \<Rightarrow> (exn + pystr list) \<times> event list" where
  "attempt_body w k pns =
     (case trendreq w k of
        Some e \<Rightarrow> (Inl e, [TrendReq k])
      | None \<Rightarrow>
          (case sweep w k pns of
             (Inl e, evs) \<Rightarrow> (Inl e, TrendReq k # evs)
           | (Inr items, evs) \<Rightarrow>
               if items \<noteq> [] then (Inr items, TrendReq k # evs)
               else (Inl RuntimeError, TrendReq k # evs)))"

text \<open>The \<^verbatim>\<open>while attempt < 5\<close> loop. Leaving the loop at its head would return
  \<^verbatim>\<open>None\<close>, which the caller tests like the empty list. \<^verbatim>\<open>time.sleep\<close> is called in the
  handler, outside any \<^verbatim>\<open>try\<close>: what it raises leaves the function.\<close>

function fetch_loop ::
  "TrendConfig \<Rightarrow> world \<Rightarrow> int \<Rightarrow> pystr list \<Rightarrow> nat \<Rightarrow> (exn + pystr list) \<times> event list" where
  "fetch_loop c w limit pns attempt =
     (if attempt < 5 then
        (let attempt = attempt + 1 in
         case attempt_body w attempt pns of
           (Inr items, evs) \<Rightarrow> (Inr (py_take limit items), evs)
         | (Inl e, evs) \<Rightarrow>
             if attempt \<ge> 5 then (Inr [], evs)
             else (let gap = backoff_gap c attempt (jitter w attempt) in
                   case time_sleep gap of
                     Inl e' \<Rightarrow> (Inl e', evs @ [Sleep gap])
                   | Inr _ \<Rightarrow>
                       (case fetch_loop c w limit pns attempt of
                          (r, evs') \<Rightarrow> (r, evs @ Sleep gap # evs'))))
      else (Inr [], []))"
  by pat_completeness auto
termination
  by (relation "measure (\<lambda>(c, w, limit, pns, attempt). 5 - attempt)") auto

declare fetch_loop.simps [simp del]

definition fetch_with_retry ::
  "pylib \<Rightarrow> client \<Rightarrow> world \<Rightarrow> pystr \<Rightarrow> int \<Rightarrow> (exn + pystr list) \<times> event list" where
  "fetch_with_retry L self w region limit =
     (if \<not> pytrends_ok self then (Inr [], [])
      else fetch_loop (cfg self) w limit (pn_candidates L region) 0)"

subsection \<open>The suggestion backup\<close>

text \<open>The suggestions of one response. Only a list of blocks contributes: a string or an
  object under \<^verbatim>\<open>"items"\<close> is iterated without a hit, anything else that is true cannot
  be iterated and raises.\<close>

definition suggestions_of_block :: "json \<Rightarrow> pystr list" where
  "suggestions_of_block block =
     (case block of
        JArr subs \<Rightarrow>
          concat (map (\<lambda>sub. case sub of
                     JArr (JStr cand # _) \<Rightarrow> (if strip cand \<noteq> [] then [strip cand] else [])
                   | _ \<Rightarrow> []) subs)
      | _ \<Rightarrow> [])"

definition suggest_body :: "world \<Rightarrow> nat \<Rightarrow> pystr \<Rightarrow> exn + pystr list" where
  "suggest_body w i q =
     (case http_get w i q of
        Inl e \<Rightarrow> Inl e
      | Inr resp \<Rightarrow>
          if status_code resp \<noteq> 200 then Inr []
          else (case body resp of
                  Inl e \<Rightarrow> Inl e
                | Inr (JObj kvs) \<Rightarrow>
                    (let items = (case map_of kvs (u ''items'') of
                                    None \<Rightarrow> JArr []
                                  | Some v \<Rightarrow> if truthy v then v else JArr [])
                     in case items of
                          JArr blocks \<Rightarrow> Inr (concat (map suggestions_of_block blocks))
                        | JStr _ \<Rightarrow> Inr []
                        | JObj _ \<Rightarrow> Inr []
                        | _ \<Rightarrow> Inl TypeError)
                | Inr _ \<Rightarrow> Inl AttributeError))"

text \<open>\<^verbatim>\<open>_suggest\<close>: every exception of the body gives the empty list.\<close>

definition suggest :: "world \<Rightarrow> nat \<Rightarrow> pystr \<Rightarrow> pystr list" where
  "suggest w i q = (case suggest_body w i q of Inl e \<Rightarrow> [] | Inr r \<Rightarrow> r)"

text \<open>The inner loop over the suggestions of one seed, from \<open>collected\<close> and \<open>seen\<close> to
  their values when the loop ends or breaks.\<close>

fun collect_sugg :: "int \<Rightarrow> pystr list \<Rightarrow> pystr list \<times> pystr list \<Rightarrow> pystr list \<times> pystr list" where
  "collect_sugg limit [] (collected, seen) = (collected, seen)"
| "collect_sugg limit (x # xs) (collected, seen) =
     (let s2 = strip x in
      if length s2 < 2 then collect_sugg limit xs (collected, seen)
      else if s2 \<in> set seen then collect_sugg limit xs (collected, seen)
      else (let seen1 = s2 # seen; collected1 = collected @ [s2] in
            if int (length collected1) \<ge> limit * 2 then (collected1, seen1)
            else collect_sugg limit xs (collected1, seen1)))"

text \<open>The outer loop over the seeds; \<open>i\<close> is the position of the seed in \<^verbatim>\<open>seeds[:30]\<close>.\<close>

fun collect_seeds ::
  "world \<Rightarrow> int \<Rightarrow> nat \<Rightarrow> pystr list \<Rightarrow> pystr list \<times> pystr list \<Rightarrow>
     (pystr list \<times> pystr list) \<times> event list" where
  "collect_seeds w limit i [] cs = (cs, [])"
| "collect_seeds w limit i (seed # seeds) cs =
     (let sugg = suggest w i seed;
          (cs2, evs) =
            (if sugg = [] then collect_seeds w limit (i + 1) seeds cs
             else (let cs1 = collect_sugg limit sugg cs in
                   if int (length (fst cs1)) \<ge> limit * 2 then (cs1, [])
                   else collect_seeds w limit (i + 1) seeds cs1))
      in (cs2, NaverGet seed # evs))"

definition score :: "pylib \<Rightarrow> pystr \<Rightarrow> int \<times> nat \<times> nat" where
  "score L w =
     (let hangul = length (filter (\<lambda>ch. 44032 \<le> ch \<and> ch \<le> 55203) w);
          latin = length (filter (\<lambda>ch. [97] \<le> lower L ch \<and> lower L ch \<le> [122]) w)
      in (- int hangul, length w, latin))"

text \<open>Lines 279 to 281: the seed terms, shuffled by the generator seeded with today's date.\<close>

definition naver_seeds :: "pylib \<Rightarrow> client \<Rightarrow> world \<Rightarrow> pystr list" where
  "naver_seeds L self w =
     (let seeds = filter (\<lambda>t. t \<noteq> []) (map strip (py_split 44 (naver_seed (cfg self))))
      in shuffle L (yyyymmdd L (date_of (now w))) seeds)"

definition fetch_from_naver_backup ::
  "pylib \<Rightarrow> client \<Rightarrow> world \<Rightarrow> int \<Rightarrow> pystr list \<times> event list" where
  "fetch_from_naver_backup L self w limit =
     (if \<not> requests_ok w then ([], [])
      else (let seeds = naver_seeds L self w in
            case collect_seeds w limit 0 (take 30 seeds) ([], []) of
              ((collected, seen), evs) \<Rightarrow>
                (py_take limit (sort_key (score L) collected), evs)))"

subsection \<open>Backfill and defaults\<close>

text \<open>Lines 355 to 369. The subtraction of line 357 and the test \<^verbatim>\<open>p.exists()\<close> of line 359
  stand before the \<^verbatim>\<open>try\<close>: what they raise leaves the function.\<close>

fun backfill_loop ::
  "pylib \<Rightarrow> world \<Rightarrow> files \<Rightarrow> int \<Rightarrow> int list \<Rightarrow> (exn + pystr list) \<times> event list" where
  "backfill_loop L w files limit [] = (Inr [], [])"
| "backfill_loop L w files limit (i # is) =
     (case timedelta_days i of
        Inl e \<Rightarrow> (Inl e, [])
      | Inr td \<Rightarrow>
          (case datetime_sub (now w) td of
             Inl e \<Rightarrow> (Inl e, [])
           | Inr t \<Rightarrow>
               (let d = date_of t in
                case files d of
                  None \<Rightarrow>
                    (case backfill_loop L w files limit is of
                       (r, evs) \<Rightarrow> (r, CacheExists d # evs))
                | Some (Inl e) \<Rightarrow> (Inl e, [CacheExists d])
                | Some (Inr f) \<Rightarrow>
                    (case content f of
                       Some (JArr (x # xs)) \<Rightarrow>
                         (Inr (py_take limit (map (py_str L) (x # xs))),
                          [CacheExists d, CacheLoad d])
                     | _ \<Rightarrow>
                         (case backfill_loop L w files limit is of
                            (r, evs) \<Rightarrow> (r, CacheExists d # CacheLoad d # evs))))))"

definition backfill_from_recent_cache ::
  "pylib \<Rightarrow> client \<Rightarrow> world \<Rightarrow> files \<Rightarrow> int \<Rightarrow> (exn + pystr list) \<times> event list" where
  "backfill_from_recent_cache L self w files limit =
     backfill_loop L w files limit [1 .. max 1 (backfill_days (cfg self))]"

text \<open>The backfill as the specification words it: the first of the given days back whose
  entry decodes to a non-empty list, cut to \<open>limit\<close>.\<close>

definition items_at :: "files \<Rightarrow> int \<Rightarrow> json list" where
  "items_at files d =
     (case files d of
        Some (Inr f) \<Rightarrow> (case content f of Some (JArr xs) \<Rightarrow> xs | _ \<Rightarrow> [])
      | _ \<Rightarrow> [])"

definition backfill_spec ::
  "pylib \<Rightarrow> world \<Rightarrow> files \<Rightarrow> int \<Rightarrow> int list \<Rightarrow> pystr list" where
  "backfill_spec L w files limit days =
     (case List.find (\<lambda>i. items_at files (date_of (now w) - i) \<noteq> []) days of
        None \<Rightarrow> []
      | Some i \<Rightarrow> py_take limit (map (py_str L) (items_at files (date_of (now w) - i))))"

definition base_pool :: "pystr list" where
  "base_pool =
     [u ''Windows 95'', [47112, 53944, 47196], [54589, 49472, 50500, 53944],
      [46356, 51648, 53560, 32, 50500, 53944], [65, 73, 32, 51060, 48120, 51648],
      [48120, 45768, 47680, 32, 46356, 51088, 51064], [53580, 53356, 32, 45684, 49828],
      [44060, 48156, 51088, 32, 54017], [53944, 47116, 46300],
      [51064, 49828, 53440, 44536, 47016],
      [53080, 53584, 52768, 32, 51228, 51089], [50724, 53664, 47700, 51060, 49496],
      [54532, 47212, 54532, 53944], [52897, 49496], [54644, 49884, 53468, 44536],
      [49828, 53440, 53944, 45936, 49828, 53356], u ''fromstartdesk'', [44068, 47084, 47532],
      [53812, 53431], [50892, 53356, 54540, 47196, 50864],
      [53364, 46972, 50864, 46300], [54028, 51060, 50028], u ''Next.js'', u ''Supabase'',
      [50724, 54536, 49548, 49828]]"

definition default_keywords :: "pylib \<Rightarrow> world \<Rightarrow> pystr \<Rightarrow> int \<Rightarrow> pystr list" where
  "default_keywords L w region limit =
     (let seed = yyyymmdd L (date_of (now w)) XOR sum_list (map int region);
          base = shuffle L seed base_pool
      in py_take (max 5 limit) base)"

subsection \<open>The fallback chain\<close>

text \<open>Lines 120 to 152: what \<^verbatim>\<open>get_daily_keywords\<close> does once the cache gave nothing.\<close>

definition after_cache ::
  "pylib \<Rightarrow> client \<Rightarrow> world \<Rightarrow> int \<Rightarrow> pystr \<Rightarrow> int \<Rightarrow> st \<Rightarrow> (exn + pystr list) \<times> st" where
  "after_cache L self w target_date region limit s =
     (case fetch_with_retry L self w region limit of
        (Inl e, evs1) \<Rightarrow> (Inl e, tell evs1 s)
      | (Inr items, evs1) \<Rightarrow>
          (let s1 = tell evs1 s in
           if items \<noteq> [] then (Inr (py_take limit items), write_cache w target_date items s1)
           else
             (case (if use_naver_backup (cfg self)
                    then fetch_from_naver_backup L self w limit else ([], [])) of
                (naver_items, evs2) \<Rightarrow>
                  (let s2 = tell evs2 s1 in
                   if naver_items \<noteq> []
                   then (Inr (py_take limit naver_items),
                         write_cache w target_date naver_items s2)
                   else
                     (case backfill_from_recent_cache L self w (cache s2) limit of
                        (Inl e, evs3) \<Rightarrow> (Inl e, tell evs3 s2)
                      | (Inr backfilled, evs3) \<Rightarrow>
                          (let s3 = tell evs3 s2 in
                           if backfilled \<noteq> []
                           then (Inr (py_take limit backfilled),
                                 write_cache w target_date backfilled s3)
                           else if allow_defaults (cfg self)
                           then (let defaults = default_keywords L w region limit
                                 in (Inr (py_take limit defaults),
                                     write_cache w target_date defaults s3))
                           else (Inr [], write_cache w target_date [] s3)))))))"

text \<open>Lines 111 and 112: the date asked for, and the region in upper case.\<close>

definition target_date :: "world \<Rightarrow> int option \<Rightarrow> int" where
  "target_date w date = date_of (case date of None \<Rightarrow> now w | Some t \<Rightarrow> t)"

definition region_of :: "pylib \<Rightarrow> client \<Rightarrow> pystr option \<Rightarrow> pystr" where
  "region_of L self region =
     upper L (case region of
                None \<Rightarrow> region_default (cfg self)
              | Some r \<Rightarrow> if r \<noteq> [] then r else region_default (cfg self))"

definition get_daily_keywords ::
  "pylib \<Rightarrow> client \<Rightarrow> world \<Rightarrow> int option \<Rightarrow> pystr option \<Rightarrow> int \<Rightarrow> st \<Rightarrow>
     (exn + pystr list) \<times> st" where
  "get_daily_keywords L self w date region limit s =
     (let d = target_date w date;
          region = region_of L self region
      in case read_cache_if_fresh L self w (cache s) d of
           (Inl e, evs) \<Rightarrow> (Inl e, tell evs s)
         | (Inr (Some cached, why), evs) \<Rightarrow>
             if length cached > 0 then (Inr (py_take limit cached), tell evs s)
             else after_cache L self w d region limit (tell evs s)
         | (Inr (None, why), evs) \<Rightarrow> after_cache L self w d region limit (tell evs s))"

subsection \<open>Concrete configurations and worlds\<close>

text \<open>The defaults of the dataclass \<^verbatim>\<open>TrendConfig\<close>.\<close>

definition default_cfg :: TrendConfig where
  "default_cfg = \<lparr>cache_ttl_days = 2, sleep_min = 2, sleep_max = 5, batch_size = 5,
     region_default = u ''KR'', backfill_days = 7, allow_defaults = True,
     use_naver_backup = True,
     naver_seed = [44032, 44, 45208, 44, 45796, 44, 46972, 44, 47560, 44, 48148, 44, 49324, 44,
       50500, 44, 51088, 44, 52264, 44, 52852, 44, 53440, 44, 54028, 44, 54616, 44, 65, 73, 44,
       45684, 49828, 44, 45216, 50472, 44, 51020, 50501, 44, 44172, 51076, 44, 50689, 54868, 44,
       46300, 46972, 47560, 44, 49660, 54609, 44, 54635, 46364]\<rparr>"

text \<open>A stand-in for the library: a shuffle that reverses the list when the seed is even,
  the day number as the date integer, and case mappings that leave every code point alone.\<close>

definition lib0 :: pylib where
  "lib0 = \<lparr>shuffle = (\<lambda>seed xs. if even seed then rev xs else xs), yyyymmdd = (\<lambda>d. d),
     upper = (\<lambda>s. s), lower = (\<lambda>c. [c]), repr = (\<lambda>x. [])\<rparr>"

text \<open>A world in which nothing outside answers: no session with the primary source can be
  opened, the module \<^verbatim>\<open>requests\<close> is missing, the cache directory is writable.\<close>

definition dead_world :: world where
  "dead_world = \<lparr>now = 63900000000000000, requests_ok = False,
     trendreq = (\<lambda>k. Some IOError), trending_searches = (\<lambda>k pn. Inl IOError),
     jitter = (\<lambda>k. 1 / 2), http_get = (\<lambda>i q. Inl IOError),
     write_outcome = (\<lambda>d. WriteOk)\<rparr>"

text \<open>A cache directory with one entry, dated the day before that of \<open>dead_world\<close>.\<close>

definition yesterday_files :: files where
  "yesterday_files =
     (\<lambda>d. if d = 739582
          then Some (Inr \<lparr>mtime = Some 63899900000000000,
                          content = Some (JArr [JStr (u ''old'')])\<rparr>)
          else None)"

text \<open>Clients, a world where the suggestion service can be asked but does not answer,
  and cache directories holding a fresh entry for the day of \<open>dead_world\<close>.\<close>

definition client0 :: client where
  "client0 = \<lparr>cfg = default_cfg, pytrends_ok = True\<rparr>"

definition offline_world :: world where
  "offline_world = dead_world\<lparr>requests_ok := True\<rparr>"

definition no_defaults_client :: client where
  "no_defaults_client = \<lparr>cfg = default_cfg\<lparr>allow_defaults := False\<rparr>, pytrends_ok = True\<rparr>"

definition hit_st :: st where
  "hit_st = \<lparr>cache = (\<lambda>d. if d = 739583
       then Some (Inr \<lparr>mtime = Some 63899990000000000,
                       content = Some (JArr [JStr (u ''a''), JStr (u ''b''), JStr (u ''c'')])\<rparr>)
       else None), trace = []\<rparr>"

definition empty_hit_st :: st where
  "empty_hit_st = \<lparr>cache = (\<lambda>d. if d = 739583
       then Some (Inr \<lparr>mtime = Some 63899990000000000, content = Some (JArr [])\<rparr>)
       else None), trace = []\<rparr>"

definition empty_st :: st where
  "empty_st = \<lparr>cache = (\<lambda>d. None), trace = []\<rparr>"

text \<open>A cache directory that may not be searched: \<^verbatim>\<open>Path.exists()\<close> raises PermissionError
  for every path below it.\<close>

definition locked_st :: st where
  "locked_st = \<lparr>cache = (\<lambda>d. Some (Inl PermissionError)), trace = []\<rparr>"

text \<open>A world in which the primary source answers every candidate with an empty frame.\<close>

definition empty_frames_world :: world where
  "empty_frames_world =
     dead_world\<lparr>trendreq := (\<lambda>k. None), trending_searches := (\<lambda>k pn. Inr FEmpty)\<rparr>"

text \<open>Configurations that nothing validates: a negative \<open>sleep_max\<close>, a \<open>sleep_min\<close> above
  four times \<open>sleep_max\<close>, and delays of 10^10 seconds.\<close>

definition negative_cfg :: TrendConfig where
  "negative_cfg = default_cfg\<lparr>sleep_max := - 1\<rparr>"

definition inverted_cfg :: TrendConfig where
  "inverted_cfg = default_cfg\<lparr>sleep_min := 10, sleep_max := 2\<rparr>"

definition huge_cfg :: TrendConfig where
  "huge_cfg = default_cfg\<lparr>sleep_min := 10000000000, sleep_max := 10000000000\<rparr>"

subsection \<open>Freshness\<close>

text \<open>An entry is fresh when its modification time can be read and its age is at most
  \<open>cache_ttl_days\<close> days, a number of days that \<^verbatim>\<open>timedelta\<close> accepts.\<close>

definition fresh :: "client \<Rightarrow> world \<Rightarrow> cachefile \<Rightarrow> bool" where
  "fresh self w f =
     (case mtime f of
        None \<Rightarrow> False
      | Some m \<Rightarrow> \<bar>cache_ttl_days (cfg self)\<bar> \<le> 999999999
                 \<and> now w - m \<le> cache_ttl_days (cfg self) * day_us)"

subsection \<open>Reading the cache directory and a trace\<close>

text \<open>What \<^verbatim>\<open>Path.exists()\<close> raises for the path of a date, if anything.\<close>

definition lookup_error :: "files \<Rightarrow> int \<Rightarrow> exn option" where
  "lookup_error files d = (case files d of Some (Inl e) \<Rightarrow> Some e | _ \<Rightarrow> None)"

text \<open>The numbers of the attempts made, and the candidates asked in attempt \<open>k\<close>, in order.\<close>

definition attempts :: "event list \<Rightarrow> nat list" where
  "attempts evs = concat (map (\<lambda>e. case e of TrendReq k \<Rightarrow> [k] | _ \<Rightarrow> []) evs)"

definition queries :: "nat \<Rightarrow> event list \<Rightarrow> pystr list" where
  "queries k evs =
     concat (map (\<lambda>e. case e of TrendingSearches k' pn \<Rightarrow> if k' = k then [pn] else [] | _ \<Rightarrow> []) evs)"

text \<open>The calls of \<^verbatim>\<open>time.sleep\<close> in a trace, each with the number of the attempt it
  follows (\<open>k\<close> before the first attempt of the trace).\<close>

fun delays :: "nat \<Rightarrow> event list \<Rightarrow> (nat \<times> real) list" where
  "delays k [] = []"
| "delays k (TrendReq k' # evs) = delays k' evs"
| "delays k (Sleep g # evs) = (k, g) # delays k evs"
| "delays k (e # evs) = delays k evs"

text \<open>A candidate ends the sweep of attempt \<open>k\<close> when its frame holds a string (the items
  are found) or cannot be read (the sweep raises). The candidates that a sweep has to ask
  are those up to and including the first that ends it: all of them when none does.\<close>

definition ends_sweep :: "world \<Rightarrow> nat \<Rightarrow> pystr \<Rightarrow> bool" where
  "ends_sweep w k pn =
     (case trending_searches w k pn of
        Inr FBroken \<Rightarrow> True
      | Inr (FRows cells) \<Rightarrow>
          concat (map (\<lambda>v. case v of CStr t \<Rightarrow> [strip t] | COther \<Rightarrow> []) cells) \<noteq> []
      | _ \<Rightarrow> False)"

definition asked :: "world \<Rightarrow> nat \<Rightarrow> pystr list \<Rightarrow> pystr list" where
  "asked w k pns =
     takeWhile (\<lambda>pn. \<not> ends_sweep w k pn) pns
       @ take 1 (dropWhile (\<lambda>pn. \<not> ends_sweep w k pn) pns)"

section \<open>Properties\<close>

subsection \<open>The retry loop\<close>

lemma sweep_events: "set (snd (sweep w k pns)) \<subseteq> range (TrendingSearches k)"
  by (induction pns) (auto split: sum.splits frame.splits if_splits prod.splits simp: Let_def)

lemma attempt_body_events:
  "set (snd (attempt_body w k pns)) \<subseteq> insert (TrendReq k) (range (TrendingSearches k))"
  using sweep_events [of w k pns]
  by (auto simp: attempt_body_def split: option.splits prod.splits sum.splits if_splits)

lemma fetch_loop_induct [consumes 1, case_names exhausted success giveup sleep_raises retry]:
  assumes run: "fetch_loop c w limit pns a = (r, evs)"
    and exhausted: "\<And>a. \<not> a < 5 \<Longrightarrow> P a (Inr []) []"
    and success: "\<And>a items evs. a < 5 \<Longrightarrow> attempt_body w (a + 1) pns = (Inr items, evs) \<Longrightarrow>
           P a (Inr (py_take limit items)) evs"
    and giveup: "\<And>a e evs. a + 1 = 5 \<Longrightarrow> attempt_body w (a + 1) pns = (Inl e, evs) \<Longrightarrow>
           P a (Inr []) evs"
    and sleep_raises: "\<And>a e evs e'. a + 1 < 5 \<Longrightarrow> attempt_body w (a + 1) pns = (Inl e, evs) \<Longrightarrow>
           time_sleep (backoff_gap c (a + 1) (jitter w (a + 1))) = Inl e' \<Longrightarrow>
           P a (Inl e') (evs @ [Sleep (backoff_gap c (a + 1) (jitter w (a + 1)))])"
    and retry: "\<And>a e evs r evs'. a + 1 < 5 \<Longrightarrow> attempt_body w (a + 1) pns = (Inl e, evs) \<Longrightarrow>
           time_sleep (backoff_gap c (a + 1) (jitter w (a + 1))) = Inr () \<Longrightarrow>
           fetch_loop c w limit pns (a + 1) = (r, evs') \<Longrightarrow> P (a + 1) r evs' \<Longrightarrow>
           P a r (evs @ Sleep (backoff_gap c (a + 1) (jitter w (a + 1))) # evs')"
  shows "P a r evs"
  using assms
proof (induction c w limit pns a arbitrary: r evs rule: fetch_loop.induct)
  case (1 c w limit pns attempt)
  note run = "1.prems"(1)
  note exhausted = "1.prems"(2) and success = "1.prems"(3) and giveup = "1.prems"(4)
    and sleep_raises = "1.prems"(5) and retry = "1.prems"(6)
  show ?case
  proof (cases "attempt < 5")
    case False
    with run have "r = Inr []" "evs = []" by (simp_all add: fetch_loop.simps)
    with exhausted [OF False] show ?thesis by simp
  next
    case True
    obtain r0 evs0 where ab: "attempt_body w (attempt + 1) pns = (r0, evs0)"
      by (cases "attempt_body w (attempt + 1) pns")
    show ?thesis
    proof (cases r0)
      case (Inr items)
      with True ab run have "r = Inr (py_take limit items)" "evs = evs0"
        by (simp_all add: fetch_loop.simps [of c w limit pns attempt])
      with success [OF True ab [unfolded Inr]] show ?thesis by simp
    next
      case (Inl e)
      let ?gap = "backoff_gap c (attempt + 1) (jitter w (attempt + 1))"
      show ?thesis
      proof (cases "attempt + 1 \<ge> 5")
        case ge: True
        with True ab Inl run have "r = Inr []" "evs = evs0"
          by (simp_all add: fetch_loop.simps [of c w limit pns attempt])
        moreover from ge True have "attempt + 1 = 5" by simp
        ultimately show ?thesis using giveup [OF _ ab [unfolded Inl]] by simp
      next
        case False
        then have lt: "attempt + 1 < 5" by simp
        show ?thesis
        proof (cases "time_sleep ?gap")
          case raised: (Inl e')
          with True ab Inl False run have "r = Inl e'" "evs = evs0 @ [Sleep ?gap]"
            by (simp_all add: fetch_loop.simps [of c w limit pns attempt] Let_def)
          with sleep_raises [OF lt ab [unfolded Inl] raised] show ?thesis by simp
        next
          case (Inr u)
          then have slp: "time_sleep ?gap = Inr ()" by simp
          obtain r' evs' where rec: "fetch_loop c w limit pns (attempt + 1) = (r', evs')"
            by (cases "fetch_loop c w limit pns (attempt + 1)")
          have ih: "P (attempt + 1) r' evs'"
            by (rule "1.IH" [OF True refl ab [symmetric] Inl False refl slp rec])
              (fact exhausted success giveup sleep_raises retry)+
          from retry [OF lt ab [unfolded Inl] slp rec ih]
          have "P attempt r' (evs0 @ Sleep ?gap # evs')" .
          moreover have "fetch_loop c w limit pns attempt = (r', evs0 @ Sleep ?gap # evs')"
            using True ab Inl False slp rec
            by (simp add: fetch_loop.simps [of c w limit pns attempt] Let_def)
          ultimately show ?thesis using run by simp
        qed
      qed
    qed
  qed
qed

text \<open>What one sweep and one attempt ask.\<close>

lemma asked_Nil [simp]: "asked w k [] = []"
  by (simp add: asked_def)

lemma asked_Cons [simp]:
  "asked w k (pn # pns) = (if ends_sweep w k pn then [pn] else pn # asked w k pns)"
  by (simp add: asked_def)

lemma asked_prefix: "\<exists>n. asked w k pns = take n pns"
proof (induction pns)
  case Nil
  show ?case by simp
next
  case (Cons pn pns)
  then obtain n where n: "asked w k pns = take n pns" by blast
  have "asked w k (pn # pns) = take (Suc 0) (pn # pns)
      \<or> asked w k (pn # pns) = take (Suc n) (pn # pns)"
    using n by simp
  then show ?case by blast
qed

lemma asked_all: "\<forall>pn\<in>set pns. \<not> ends_sweep w k pn \<Longrightarrow> asked w k pns = pns"
  by (induction pns) simp_all

lemma sweep_asked: "snd (sweep w k pns) = map (TrendingSearches k) (asked w k pns)"
proof (induction pns)
  case Nil
  show ?case by simp
next
  case (Cons pn pns)
  have "snd (sweep w k (pn # pns)) =
      TrendingSearches k pn # (if ends_sweep w k pn then [] else snd (sweep w k pns))"
    by (auto simp: ends_sweep_def Let_def split: sum.splits frame.splits prod.splits)
  with Cons show ?case by simp
qed

lemma attempt_body_trace:
  "snd (attempt_body w k pns) =
     TrendReq k # (if trendreq w k = None then map (TrendingSearches k) (asked w k pns) else [])"
  using sweep_asked [of w k pns]
  by (auto simp: attempt_body_def split: option.splits prod.splits sum.splits)

lemma attempts_simps [simp]:
  "attempts [] = []" "attempts (TrendReq k # evs) = k # attempts evs"
  "attempts (TrendingSearches k pn # evs) = attempts evs"
  "attempts (Sleep g # evs) = attempts evs"
  "attempts (xs @ ys) = attempts xs @ attempts ys"
  by (simp_all add: attempts_def)

lemma queries_simps [simp]:
  "queries k [] = []" "queries k (TrendReq j # evs) = queries k evs"
  "queries k (TrendingSearches j pn # evs) = (if j = k then pn # queries k evs else queries k evs)"
  "queries k (Sleep g # evs) = queries k evs"
  "queries k (xs @ ys) = queries k xs @ queries k ys"
  by (simp_all add: queries_def)

lemma attempts_map_queries [simp]: "attempts (map (TrendingSearches k) pns) = []"
  by (induction pns) simp_all

lemma queries_map [simp]:
  "queries j (map (TrendingSearches k) pns) = (if j = k then pns else [])"
  by (induction pns) (simp_all split: if_splits)

lemma delays_map [simp]: "delays k (map (TrendingSearches j) pns @ evs) = delays k evs"
  by (induction pns) simp_all

lemma attempt_body_attempts: "attempt_body w k pns = (r, evs) \<Longrightarrow> attempts evs = [k]"
  using attempt_body_trace [of w k pns] by simp

lemma attempt_body_queries:
  "attempt_body w k pns = (r, evs) \<Longrightarrow>
     queries j evs = (if j = k \<and> trendreq w k = None then asked w k pns else [])"
  using attempt_body_trace [of w k pns] by simp

lemma attempt_body_delays:
  "attempt_body w k pns = (r, evs) \<Longrightarrow> delays j (evs @ rest) = delays k rest"
  using attempt_body_trace [of w k pns] by simp

lemma fetch_loop_attempts:
  assumes "fetch_loop c w limit pns a = (r, evs)"
  shows "\<exists>n. a + n \<le> max a 5 \<and> attempts evs = [a + 1 ..< a + 1 + n]"
  using assms
proof (induction rule: fetch_loop_induct)
  case (exhausted a)
  show ?case by (intro exI [of _ 0]) simp
next
  case (success a items evs)
  then show ?case by (intro exI [of _ 1]) (simp add: attempt_body_attempts)
next
  case (giveup a e evs)
  then show ?case by (intro exI [of _ 1]) (simp add: attempt_body_attempts)
next
  case (sleep_raises a e evs e')
  then show ?case by (intro exI [of _ 1]) (simp add: attempt_body_attempts)
next
  case (retry a e evs r evs')
  then obtain n where n: "a + 1 + n \<le> max (a + 1) 5" "attempts evs' = [a + 1 + 1 ..< a + 1 + 1 + n]"
    by blast
  have "attempts (evs @ Sleep (backoff_gap c (a + 1) (jitter w (a + 1))) # evs')
      = [a + 1 ..< a + 1 + Suc n]"
    using n(2) retry(2) by (simp add: attempt_body_attempts upt_rec [of "Suc a"])
  moreover have "a + Suc n \<le> max a 5" using n(1) retry(1) by simp
  ultimately show ?case by blast
qed

lemma fetch_loop_attempts_later:
  assumes "fetch_loop c w limit pns a = (r, evs)" and "j \<in> set (attempts evs)"
  shows "a < j"
  using fetch_loop_attempts [OF assms(1)] assms(2) by auto

text \<open>Every attempt made asks exactly the candidates that its sweep has to ask, and nothing
  is asked outside of an attempt.\<close>

lemma fetch_loop_queries:
  assumes "fetch_loop c w limit pns a = (r, evs)"
  shows "queries j evs =
     (if j \<in> set (attempts evs) \<and> trendreq w j = None then asked w j pns else [])"
  using assms
proof (induction rule: fetch_loop_induct)
  case (exhausted a)
  show ?case by simp
next
  case (success a items evs)
  then show ?case by (auto simp: attempt_body_attempts attempt_body_queries)
next
  case (giveup a e evs)
  then show ?case by (auto simp: attempt_body_attempts attempt_body_queries)
next
  case (sleep_raises a e evs e')
  then show ?case by (auto simp: attempt_body_attempts attempt_body_queries)
next
  case (retry a e evs r evs')
  show ?case
  proof (cases "j = a + 1")
    case True
    have "j \<notin> set (attempts evs')"
      using fetch_loop_attempts_later [OF retry(4), of j] True by auto
    with retry(5) have "queries j evs' = []" by simp
    with True retry(2) show ?thesis
      by (auto simp: attempt_body_attempts attempt_body_queries)
  next
    case False
    with retry(2,5) show ?thesis
      by (auto simp: attempt_body_attempts attempt_body_queries)
  qed
qed

lemma fetch_loop_fifth:
  assumes "fetch_loop c w limit pns a = (r, evs)"
    and "5 \<in> set (attempts evs)" and "isl (fst (attempt_body w 5 pns))"
  shows "r = Inr []"
  using assms
proof (induction rule: fetch_loop_induct)
  case (exhausted a)
  then show ?case by simp
next
  case (success a items evs)
  then show ?case by (simp add: attempt_body_attempts)
next
  case (giveup a e evs)
  then show ?case by simp
next
  case (sleep_raises a e evs e')
  then show ?case by (simp add: attempt_body_attempts)
next
  case (retry a e evs r evs')
  then show ?case by (simp add: attempt_body_attempts)
qed

text \<open>The calls of \<^verbatim>\<open>time.sleep\<close> are those after the failed attempts below the fifth,
  one each, with the delay of that attempt.\<close>

lemma fetch_loop_delays:
  assumes "fetch_loop c w limit pns a = (r, evs)"
  shows "\<forall>j. delays j evs =
     map (\<lambda>k. (k, backoff_gap c k (jitter w k)))
       (filter (\<lambda>k. k \<le> 4 \<and> isl (fst (attempt_body w k pns))) (attempts evs))"
  using assms
proof (induction rule: fetch_loop_induct)
  case (exhausted a)
  show ?case by simp
next
  case (success a items evs)
  from attempt_body_delays [OF success(2), of _ "[]"] success(2) show ?case
    by (simp add: attempt_body_attempts)
next
  case (giveup a e evs)
  from attempt_body_delays [OF giveup(2), of _ "[]"] giveup(1,2) show ?case
    by (simp add: attempt_body_attempts)
next
  case (sleep_raises a e evs e')
  from sleep_raises(1) have "Suc a \<le> 4" by simp
  with sleep_raises(2) show ?case
    by (simp add: attempt_body_attempts attempt_body_delays)
next
  case (retry a e evs r evs')
  from retry(1) have "Suc a \<le> 4" by simp
  with retry(2,5) show ?case
    by (simp add: attempt_body_attempts attempt_body_delays)
qed

lemma dead_attempt: "attempt_body dead_world k pns = (Inl IOError, [TrendReq k])"
  by (simp add: attempt_body_def dead_world_def)

lemma backoff_gap_upper: "backoff_gap c k j \<le> sleep_max c * 4"
  by (simp add: backoff_gap_def Let_def)

lemma backoff_gap_lower: "sleep_min c \<le> sleep_max c * 4 \<Longrightarrow> sleep_min c \<le> backoff_gap c k j"
  by (simp add: backoff_gap_def Let_def)

text \<open>
  Claim C9, as amended. \<^verbatim>\<open>_fetch_with_retry\<close> calls \<^verbatim>\<open>time.sleep\<close> exactly once after every
  failed attempt \<open>k\<close> with \<open>1 \<le> k \<le> 4\<close>, and the delay of that call is
  \<open>max(sleep_min, 1) * 2^(k-1)\<close> plus the jitter drawn for attempt \<open>k\<close>, a number in
  \<open>[0, 2)\<close>, raised to at least \<open>sleep_min\<close> and then cut to at most \<open>sleep_max * 4\<close>. So the
  delay never exceeds \<open>sleep_max * 4\<close>, and it lies within \<open>[sleep_min, sleep_max * 4]\<close>
  whenever \<open>sleep_min \<le> sleep_max * 4\<close>. (\<^verbatim>\<open>random.uniform(0, 2.0)\<close> draws from \<open>[0, 2)\<close>;
  the arithmetic is that of the reals.)
\<close>

theorem fetch_with_retry_delay:
  assumes "fetch_with_retry L self w region limit = (r, evs)"
    and "\<forall>k. 0 \<le> jitter w k \<and> jitter w k < 2"
  shows "delays 0 evs =
           map (\<lambda>k. (k, min (max (max (sleep_min (cfg self)) 1 * 2 ^ (k - 1) + jitter w k)
                               (sleep_min (cfg self))) (sleep_max (cfg self) * 4)))
             (filter (\<lambda>k. k \<le> 4 \<and> isl (fst (attempt_body w k (pn_candidates L region))))
                (attempts evs))
         \<and> (\<forall>(k, g)\<in>set (delays 0 evs). 1 \<le> k \<and> k \<le> 4
              \<and> (\<exists>j. 0 \<le> j \<and> j < 2
                    \<and> g = min (max (max (sleep_min (cfg self)) 1 * 2 ^ (k - 1) + j)
                                 (sleep_min (cfg self))) (sleep_max (cfg self) * 4))
              \<and> g \<le> sleep_max (cfg self) * 4
              \<and> (sleep_min (cfg self) \<le> sleep_max (cfg self) * 4 \<longrightarrow> sleep_min (cfg self) \<le> g))"
proof -
  let ?c = "cfg self"
  let ?gap = "\<lambda>k. min (max (max (sleep_min ?c) 1 * 2 ^ (k - 1) + jitter w k) (sleep_min ?c))
                     (sleep_max ?c * 4)"
  let ?failed = "\<lambda>k. k \<le> 4 \<and> isl (fst (attempt_body w k (pn_candidates L region)))"
  have gap: "backoff_gap ?c k (jitter w k) = ?gap k" for k
    by (simp add: backoff_gap_def Let_def)
  have eq: "delays 0 evs = map (\<lambda>k. (k, ?gap k)) (filter ?failed (attempts evs))"
    and pos: "\<forall>k\<in>set (attempts evs). 1 \<le> k"
  proof -
    show "delays 0 evs = map (\<lambda>k. (k, ?gap k)) (filter ?failed (attempts evs))"
    proof (cases "pytrends_ok self")
      case False
      with assms(1) show ?thesis by (auto simp: fetch_with_retry_def)
    next
      case True
      with assms(1) have "fetch_loop ?c w limit (pn_candidates L region) 0 = (r, evs)"
        by (simp add: fetch_with_retry_def)
      from fetch_loop_delays [OF this] show ?thesis by (simp add: gap)
    qed
    show "\<forall>k\<in>set (attempts evs). 1 \<le> k"
    proof (cases "pytrends_ok self")
      case False
      with assms(1) show ?thesis by (auto simp: fetch_with_retry_def)
    next
      case True
      with assms(1) have "fetch_loop ?c w limit (pn_candidates L region) 0 = (r, evs)"
        by (simp add: fetch_with_retry_def)
      from fetch_loop_attempts_later [OF this] show ?thesis by fastforce
    qed
  qed
  have "1 \<le> k \<and> k \<le> 4
      \<and> (\<exists>j. 0 \<le> j \<and> j < 2
            \<and> g = min (max (max (sleep_min ?c) 1 * 2 ^ (k - 1) + j) (sleep_min ?c))
                      (sleep_max ?c * 4))
      \<and> g \<le> sleep_max ?c * 4
      \<and> (sleep_min ?c \<le> sleep_max ?c * 4 \<longrightarrow> sleep_min ?c \<le> g)"
    if "(k, g) \<in> set (delays 0 evs)" for k g
  proof -
    from that eq have k: "k \<in> set (attempts evs)" "k \<le> 4" and g: "g = ?gap k"
      by auto
    from k(1) pos have "1 \<le> k" by blast
    moreover from assms(2) have "0 \<le> jitter w k \<and> jitter w k < 2" by blast
    with g have "\<exists>j. 0 \<le> j \<and> j < 2
        \<and> g = min (max (max (sleep_min ?c) 1 * 2 ^ (k - 1) + j) (sleep_min ?c))
                  (sleep_max ?c * 4)"
      by blast
    moreover have "g \<le> sleep_max ?c * 4"
      unfolding g gap [symmetric] by (rule backoff_gap_upper)
    moreover have "sleep_min ?c \<le> sleep_max ?c * 4 \<longrightarrow> sleep_min ?c \<le> g"
      unfolding g gap [symmetric] by (simp add: backoff_gap_lower)
    ultimately show ?thesis using k(2) by blast
  qed
  with eq show ?thesis by blast
qed

text \<open>Runs in which no session with the primary source can be opened.\<close>

lemma all_fail_run:
  assumes "\<forall>k. trendreq w k = Some IOError" and "\<forall>k. jitter w k = 1 / 2"
    and "sleep_min c = 2" and "sleep_max c = 5"
  shows "fetch_loop c w limit pns 0 =
     (Inr [], [TrendReq 1, Sleep (5 / 2), TrendReq 2, Sleep (9 / 2), TrendReq 3, Sleep (17 / 2),
               TrendReq 4, Sleep (33 / 2), TrendReq 5])"
proof -
  have a: "attempt_body w k pns = (Inl IOError, [TrendReq k])" for k
    using assms(1) by (simp add: attempt_body_def)
  have j: "jitter w k = 1 / 2" for k
    using assms(2) by blast
  show ?thesis
    by (simp add: fetch_loop.simps a j assms(3,4) time_sleep_def backoff_gap_def)
qed

lemma all_fail_fetch:
  assumes "\<forall>k. trendreq w k = Some IOError" and "\<forall>k. jitter w k = 1 / 2"
    and "sleep_min (cfg self) = 2" and "sleep_max (cfg self) = 5" and "pytrends_ok self"
  shows "fetch_with_retry L self w region limit =
     (Inr [], [TrendReq 1, Sleep (5 / 2), TrendReq 2, Sleep (9 / 2), TrendReq 3, Sleep (17 / 2),
               TrendReq 4, Sleep (33 / 2), TrendReq 5])"
  using assms(5) by (simp add: fetch_with_retry_def all_fail_run [OF assms(1-4)])

lemma dead_jitter: "\<forall>k. 0 \<le> jitter dead_world k \<and> jitter dead_world k < 2"
  by (simp add: dead_world_def)

lemma dead_world_fails:
  "\<forall>k. trendreq dead_world k = Some IOError" "\<forall>k. jitter dead_world k = 1 / 2"
  by (simp_all add: dead_world_def)

lemma default_sleeps: "sleep_min default_cfg = 2" "sleep_max default_cfg = 5"
  by (simp_all add: default_cfg_def)

theorem fetch_with_retry_delay_witness:
  "fetch_with_retry lib0 \<lparr>cfg = default_cfg, pytrends_ok = True\<rparr> dead_world (u ''KR'') 20 =
     (Inr [], [TrendReq 1, Sleep (5 / 2), TrendReq 2, Sleep (9 / 2), TrendReq 3, Sleep (17 / 2),
               TrendReq 4, Sleep (33 / 2), TrendReq 5])
   \<and> (\<forall>k. 0 \<le> jitter dead_world k \<and> jitter dead_world k < 2)
   \<and> delays 0 [TrendReq 1, Sleep (5 / 2), TrendReq 2, Sleep (9 / 2), TrendReq 3, Sleep (17 / 2),
               TrendReq 4, Sleep (33 / 2), TrendReq 5] =
       [(1, 5 / 2), (2, 9 / 2), (3, 17 / 2), (4, 33 / 2)]
   \<and> (9 / 2 :: real) =
       min (max (max (sleep_min default_cfg) 1 * 2 ^ (2 - 1) + jitter dead_world 2)
             (sleep_min default_cfg)) (sleep_max default_cfg * 4)
   \<and> sleep_min default_cfg \<le> 9 / 2 \<and> (9 / 2 :: real) \<le> sleep_max default_cfg * 4"
proof -
  let ?self = "\<lparr>cfg = default_cfg, pytrends_ok = True\<rparr>"
  have run: "fetch_with_retry lib0 ?self dead_world (u ''KR'') 20 =
     (Inr [], [TrendReq 1, Sleep (5 / 2), TrendReq 2, Sleep (9 / 2), TrendReq 3, Sleep (17 / 2),
               TrendReq 4, Sleep (33 / 2), TrendReq 5])"
    by (rule all_fail_fetch) (simp_all add: dead_world_fails default_sleeps)
  have two: "(9 / 2 :: real) =
       min (max (max (sleep_min default_cfg) 1 * 2 ^ (2 - 1) + jitter dead_world 2)
             (sleep_min default_cfg)) (sleep_max default_cfg * 4)"
    by (simp add: default_sleeps dead_world_def)
  let ?evs = "[TrendReq 1, Sleep (5 / 2), TrendReq 2, Sleep (9 / 2), TrendReq 3, Sleep (17 / 2),
               TrendReq 4, Sleep (33 / 2), TrendReq 5]"
  have d: "delays 0 ?evs = [(1, 5 / 2), (2, 9 / 2), (3, 17 / 2), (4, 33 / 2)]"
    by simp
  have le: "sleep_min default_cfg \<le> sleep_max default_cfg * 4"
    by (simp add: default_sleeps)
  have mem: "(2, 9 / 2) \<in> set (delays 0 ?evs)"
    unfolding d by simp
  from bspec [OF conjunct2 [OF fetch_with_retry_delay [OF run dead_jitter]] mem]
  have "(9 / 2 :: real) \<le> sleep_max default_cfg * 4
      \<and> (sleep_min default_cfg \<le> sleep_max default_cfg * 4 \<longrightarrow> sleep_min default_cfg \<le> 9 / 2)"
    by simp
  with le have b: "sleep_min default_cfg \<le> 9 / 2" "(9 / 2 :: real) \<le> sleep_max default_cfg * 4"
    by blast+
  from run dead_jitter d two b show ?thesis
    by blast
qed

text \<open>The claim as stated fails when \<open>sleep_min\<close> exceeds \<open>sleep_max * 4\<close>: with
  \<open>sleep_min = 10\<close> and \<open>sleep_max = 2\<close> the delay after every failed attempt is 8, below
  \<open>sleep_min\<close>, for a jitter of one half.\<close>

theorem fetch_with_retry_delay_counterexample:
  "delays 0 (snd (fetch_with_retry lib0 \<lparr>cfg = inverted_cfg, pytrends_ok = True\<rparr>
      dead_world (u ''KR'') 20)) = [(1, 8), (2, 8), (3, 8), (4, 8)]
   \<and> jitter dead_world 1 = 1 / 2
   \<and> (8 :: real) < sleep_min inverted_cfg"
proof -
  have gap: "backoff_gap inverted_cfg k (1 / 2) = 8" for k
  proof -
    have "(1::real) \<le> 2 ^ (k - 1)" by simp
    then have "(10::real) * 1 \<le> 10 * 2 ^ (k - 1)" by (intro mult_left_mono) simp_all
    then show ?thesis
      by (simp add: backoff_gap_def inverted_cfg_def default_cfg_def)
  qed
  have j: "jitter dead_world k = 1 / 2" for k by (simp add: dead_world_def)
  have "fetch_loop inverted_cfg dead_world 20 pns 0 =
     (Inr [], [TrendReq 1, Sleep 8, TrendReq 2, Sleep 8, TrendReq 3, Sleep 8, TrendReq 4, Sleep 8,
               TrendReq 5])" for pns
    by (simp add: fetch_loop.simps dead_attempt j gap time_sleep_def)
  then show ?thesis
    by (simp add: fetch_with_retry_def j inverted_cfg_def default_cfg_def)
qed

text \<open>Delays that \<^verbatim>\<open>time.sleep\<close> refuses: the exception leaves \<^verbatim>\<open>_fetch_with_retry\<close>
  after the first failed attempt.\<close>

lemma negative_delay_raises:
  "fetch_with_retry L \<lparr>cfg = negative_cfg, pytrends_ok = True\<rparr> dead_world region limit =
     (Inl ValueError, [TrendReq 1, Sleep (- 4)])"
proof -
  have gap: "backoff_gap negative_cfg (Suc 0) (1 / 2) = - 4"
    by (simp add: backoff_gap_def negative_cfg_def default_cfg_def)
  have j: "jitter dead_world (Suc 0) = 1 / 2"
    by (simp add: dead_world_def)
  have "fetch_loop negative_cfg dead_world limit pns 0 =
      (Inl ValueError, [TrendReq 1, Sleep (- 4)])" for pns
    by (simp add: fetch_loop.simps [of negative_cfg dead_world limit pns 0] dead_attempt j gap
        time_sleep_def Let_def)
  then show ?thesis
    by (simp add: fetch_with_retry_def)
qed

lemma huge_delay_raises:
  "fetch_with_retry L \<lparr>cfg = huge_cfg, pytrends_ok = True\<rparr> dead_world region limit =
     (Inl OverflowError, [TrendReq 1, Sleep (20000000001 / 2)])"
proof -
  have gap: "backoff_gap huge_cfg (Suc 0) (1 / 2) = 20000000001 / 2"
    by (simp add: backoff_gap_def huge_cfg_def default_cfg_def)
  have j: "jitter dead_world (Suc 0) = 1 / 2"
    by (simp add: dead_world_def)
  have "fetch_loop huge_cfg dead_world limit pns 0 =
      (Inl OverflowError, [TrendReq 1, Sleep (20000000001 / 2)])" for pns
    by (simp add: fetch_loop.simps [of huge_cfg dead_world limit pns 0] dead_attempt j gap
        time_sleep_def Let_def)
  then show ?thesis
    by (simp add: fetch_with_retry_def)
qed

text \<open>
  Claim C5. \<^verbatim>\<open>_fetch_with_retry\<close> makes the attempts 1 to \<open>n\<close> for some \<open>n \<le> 5\<close>. An attempt
  whose session opens asks the candidates of the region in their order, up to and including
  the first whose frame holds a string or cannot be read; so an attempt that finds no such
  candidate asks all of them. An attempt whose session does not open asks none, and nothing
  is asked outside of an attempt. When the fifth attempt is made and fails, the call returns
  the empty list, not an exception.
\<close>

theorem fetch_with_retry_attempts:
  assumes "fetch_with_retry L self w region limit = (r, evs)"
  shows "(\<exists>n\<le>5. attempts evs = [1 ..< n + 1])
         \<and> (\<forall>k. queries k evs =
                 (if k \<in> set (attempts evs) \<and> trendreq w k = None
                  then asked w k (pn_candidates L region) else []))
         \<and> (\<forall>k. \<exists>m. queries k evs = take m (pn_candidates L region))
         \<and> (\<forall>k\<in>set (attempts evs).
               trendreq w k = None \<and> (\<forall>pn\<in>set (pn_candidates L region). \<not> ends_sweep w k pn)
               \<longrightarrow> queries k evs = pn_candidates L region)
         \<and> (5 \<in> set (attempts evs) \<and> isl (fst (attempt_body w 5 (pn_candidates L region)))
              \<longrightarrow> r = Inr [])"
proof (cases "pytrends_ok self")
  case False
  with assms have "r = Inr []" "evs = []"
    by (simp_all add: fetch_with_retry_def)
  then show ?thesis by (auto intro: exI [of _ 0])
next
  case True
  let ?pns = "pn_candidates L region"
  from True assms have run: "fetch_loop (cfg self) w limit ?pns 0 = (r, evs)"
    by (simp add: fetch_with_retry_def)
  from fetch_loop_attempts [OF run] obtain n where "n \<le> 5" "attempts evs = [1 ..< n + 1]"
    by auto
  then have a: "\<exists>n\<le>5. attempts evs = [1 ..< n + 1]" by blast
  have q: "queries k evs =
      (if k \<in> set (attempts evs) \<and> trendreq w k = None then asked w k ?pns else [])" for k
    by (rule fetch_loop_queries [OF run])
  have p: "\<exists>m. queries k evs = take m ?pns" for k
  proof (cases "k \<in> set (attempts evs) \<and> trendreq w k = None")
    case True
    with q [of k] asked_prefix [of w k ?pns] show ?thesis by simp
  next
    case False
    with q [of k] have "queries k evs = take 0 ?pns" by simp
    then show ?thesis by blast
  qed
  have f: "queries k evs = ?pns"
    if "k \<in> set (attempts evs)" "trendreq w k = None" "\<forall>pn\<in>set ?pns. \<not> ends_sweep w k pn" for k
    using q [of k] that asked_all [of ?pns w k] by simp
  have "5 \<in> set (attempts evs) \<and> isl (fst (attempt_body w 5 ?pns)) \<longrightarrow> r = Inr []"
    using fetch_loop_fifth [OF run] by blast
  with a q p f show ?thesis by blast
qed

text \<open>A run in which every session opens and every frame is empty: five full sweeps.\<close>

lemma candidates_KR:
  "pn_candidates lib0 (u ''KR'') =
     [u ''south-korea'', u ''south_korea'', u ''korea'', u ''worldwide'']"
  by (simp add: pn_candidates_def pn_table_def lib0_def u_def)

lemma empty_frames_sweep:
  "sweep empty_frames_world k pns = (Inr [], map (TrendingSearches k) pns)"
  by (induction pns) (simp_all add: empty_frames_world_def)

lemma empty_frames_attempt:
  "attempt_body empty_frames_world k pns =
     (Inl RuntimeError, TrendReq k # map (TrendingSearches k) pns)"
proof -
  have "trendreq empty_frames_world k = None"
    by (simp add: empty_frames_world_def)
  then show ?thesis
    by (simp add: attempt_body_def empty_frames_sweep)
qed

lemma empty_frames_run:
  "fetch_loop default_cfg empty_frames_world limit pns 0 =
     (Inr [], TrendReq 1 # map (TrendingSearches 1) pns @ Sleep (5 / 2)
            # TrendReq 2 # map (TrendingSearches 2) pns @ Sleep (9 / 2)
            # TrendReq 3 # map (TrendingSearches 3) pns @ Sleep (17 / 2)
            # TrendReq 4 # map (TrendingSearches 4) pns @ Sleep (33 / 2)
            # TrendReq 5 # map (TrendingSearches 5) pns)"
proof -
  have j: "jitter empty_frames_world k = 1 / 2" for k
    by (simp add: empty_frames_world_def dead_world_def)
  show ?thesis
    by (simp add: fetch_loop.simps empty_frames_attempt j time_sleep_def backoff_gap_def
        default_sleeps)
qed

theorem fetch_with_retry_attempts_witness:
  "fst (fetch_with_retry lib0 \<lparr>cfg = default_cfg, pytrends_ok = True\<rparr> empty_frames_world
          (u ''KR'') 20) = Inr []
   \<and> attempts (snd (fetch_with_retry lib0 \<lparr>cfg = default_cfg, pytrends_ok = True\<rparr>
        empty_frames_world (u ''KR'') 20)) = [1, 2, 3, 4, 5]
   \<and> trendreq empty_frames_world 3 = None
   \<and> filter (ends_sweep empty_frames_world 3) (pn_candidates lib0 (u ''KR'')) = []
   \<and> queries 3 (snd (fetch_with_retry lib0 \<lparr>cfg = default_cfg, pytrends_ok = True\<rparr>
        empty_frames_world (u ''KR'') 20)) =
       [u ''south-korea'', u ''south_korea'', u ''korea'', u ''worldwide'']
   \<and> isl (fst (attempt_body empty_frames_world 5 (pn_candidates lib0 (u ''KR''))))"
proof -
  let ?self = "\<lparr>cfg = default_cfg, pytrends_ok = True\<rparr>"
  let ?pns = "pn_candidates lib0 (u ''KR'')"
  let ?evs = "snd (fetch_with_retry lib0 ?self empty_frames_world (u ''KR'') 20)"
  have res: "fst (fetch_with_retry lib0 ?self empty_frames_world (u ''KR'') 20) = Inr []"
    by (simp add: fetch_with_retry_def empty_frames_run)
  then have run: "fetch_with_retry lib0 ?self empty_frames_world (u ''KR'') 20 = (Inr [], ?evs)"
    by (simp add: prod_eq_iff)
  have att: "attempts ?evs = [1, 2, 3, 4, 5]"
    by (simp add: fetch_with_retry_def empty_frames_run)
  have open3: "trendreq empty_frames_world 3 = None"
    by (simp add: empty_frames_world_def)
  have none: "\<not> ends_sweep empty_frames_world 3 pn" for pn
    by (simp add: ends_sweep_def empty_frames_world_def)
  then have flt: "filter (ends_sweep empty_frames_world 3) ?pns = []"
    by simp
  have fifth: "isl (fst (attempt_body empty_frames_world 5 ?pns))"
    by (simp add: empty_frames_attempt)
  from fetch_with_retry_attempts [OF run]
  have "\<forall>k\<in>set (attempts ?evs).
      trendreq empty_frames_world k = None \<and> (\<forall>pn\<in>set ?pns. \<not> ends_sweep empty_frames_world k pn)
      \<longrightarrow> queries k ?evs = ?pns"
    by blast
  with att open3 none have "queries 3 ?evs = ?pns" by simp
  then have q: "queries 3 ?evs =
      [u ''south-korea'', u ''south_korea'', u ''korea'', u ''worldwide'']"
    unfolding candidates_KR .
  from res att open3 flt q fifth show ?thesis
    by blast
qed


subsection \<open>Backfill and determinism\<close>

lemma date_of_sub: "date_of (t - i * day_us) = date_of t - i"
proof -
  have nz: "day_us \<noteq> 0" by (simp add: day_us_def)
  have "t - i * day_us = (- i) * day_us + t" by simp
  then have "(t - i * day_us) div day_us = ((- i) * day_us + t) div day_us" by (rule arg_cong)
  also have "\<dots> = - i + t div day_us" by (rule div_mult_self3 [OF nz])
  finally show ?thesis by (simp add: date_of_def)
qed

lemma today_dead: "date_of (now dead_world) = 739583"
  by (simp add: date_of_def dead_world_def day_us_def)

text \<open>What one round of the backfill loop does, for a day \<open>i\<close> whose date exists.\<close>

lemma backfill_loop_step:
  assumes "timedelta_days i = Inr (i * day_us)" and "datetime_sub (now w) (i * day_us) = Inr (now w - i * day_us)"
  shows "backfill_loop L w files limit (i # is) =
     (let d = date_of (now w) - i in
      case lookup_error files d of
        Some e \<Rightarrow> (Inl e, [CacheExists d])
      | None \<Rightarrow>
          if items_at files d \<noteq> []
          then (Inr (py_take limit (map (py_str L) (items_at files d))),
                [CacheExists d, CacheLoad d])
          else (fst (backfill_loop L w files limit is),
                (if files d = None then [CacheExists d] else [CacheExists d, CacheLoad d])
                  @ snd (backfill_loop L w files limit is)))"
  using assms
  by (simp add: date_of_sub items_at_def lookup_error_def Let_def
      split: option.splits sum.splits json.splits list.splits prod.splits)

lemma backfill_loop_events:
  "e \<in> set (snd (backfill_loop L w files limit days)) \<Longrightarrow>
     \<exists>i\<in>set days. e = CacheExists (date_of (now w) - i) \<or> e = CacheLoad (date_of (now w) - i)"
proof (induction days)
  case Nil
  then show ?case by simp
next
  case (Cons i days)
  show ?case
  proof (cases "timedelta_days i = Inr (i * day_us)
      \<and> datetime_sub (now w) (i * day_us) = Inr (now w - i * day_us)")
    case True
    then have td: "timedelta_days i = Inr (i * day_us)"
      and sub: "datetime_sub (now w) (i * day_us) = Inr (now w - i * day_us)" by simp_all
    from Cons.prems have "e = CacheExists (date_of (now w) - i) \<or> e = CacheLoad (date_of (now w) - i)
        \<or> e \<in> set (snd (backfill_loop L w files limit days))"
      unfolding backfill_loop_step [OF td sub]
      by (auto simp: Let_def split: if_splits option.splits)
    with Cons.IH show ?thesis by auto
  next
    case False
    then have "snd (backfill_loop L w files limit (i # days)) = []"
      by (auto simp: timedelta_days_def datetime_sub_def split: if_splits)
    with Cons.prems show ?thesis by simp
  qed
qed

lemma backfill_loop_result:
  assumes "\<forall>i\<in>set days. 0 \<le> i \<and> i * day_us \<le> now w" and "now w \<le> datetime_max"
    and "\<forall>i\<in>set days. lookup_error files (date_of (now w) - i) = None"
  shows "fst (backfill_loop L w files limit days) = Inr (backfill_spec L w files limit days)"
  using assms(1,3)
proof (induction days)
  case Nil
  then show ?case by (simp add: backfill_spec_def)
next
  case (Cons i days)
  then have i: "0 \<le> i" "i * day_us \<le> now w" by simp_all
  have "i * day_us \<le> datetime_max" using i(2) assms(2) by simp
  then have "i \<le> 3652059" by (simp add: datetime_max_def day_us_def)
  with i have td: "timedelta_days i = Inr (i * day_us)"
    by (simp add: timedelta_days_def)
  have "0 \<le> i * day_us" using i(1) by (simp add: day_us_def)
  with i assms(2) have sub: "datetime_sub (now w) (i * day_us) = Inr (now w - i * day_us)"
    by (simp add: datetime_sub_def)
  from Cons have ih: "fst (backfill_loop L w files limit days) = Inr (backfill_spec L w files limit days)"
    by simp
  from Cons.prems(2) have ok: "lookup_error files (date_of (now w) - i) = None"
    by simp
  show ?case
    unfolding backfill_loop_step [OF td sub]
    by (simp add: Let_def ih ok backfill_spec_def)
qed

lemma lookup_error_None: "lookup_error files d = None \<longleftrightarrow> (\<forall>e. files d \<noteq> Some (Inl e))"
  by (auto simp: lookup_error_def split: option.splits sum.splits)

lemma lookup_error_Some: "lookup_error files d = Some e \<longleftrightarrow> files d = Some (Inl e)"
  by (auto simp: lookup_error_def split: option.splits sum.splits)

text \<open>The backfill raises only when a day of the window is outside the calendar, or when
  the test for the existence of a file of the window raises.\<close>

lemma backfill_loop_raises:
  "fst (backfill_loop L w files limit days) = Inl e \<Longrightarrow>
     e = OverflowError \<or> (\<exists>i\<in>set days. files (date_of (now w) - i) = Some (Inl e))"
proof (induction days)
  case Nil
  then show ?case by simp
next
  case (Cons i days)
  show ?case
  proof (cases "timedelta_days i = Inr (i * day_us)
      \<and> datetime_sub (now w) (i * day_us) = Inr (now w - i * day_us)")
    case True
    then have td: "timedelta_days i = Inr (i * day_us)"
      and sub: "datetime_sub (now w) (i * day_us) = Inr (now w - i * day_us)" by simp_all
    show ?thesis
    proof (cases "lookup_error files (date_of (now w) - i)")
      case (Some e')
      with Cons.prems have "e' = e"
        unfolding backfill_loop_step [OF td sub] by (simp add: Let_def)
      with Some have "files (date_of (now w) - i) = Some (Inl e)"
        by (simp add: lookup_error_Some)
      then show ?thesis by simp
    next
      case None
      with Cons.prems have "fst (backfill_loop L w files limit days) = Inl e"
        unfolding backfill_loop_step [OF td sub] by (simp add: Let_def split: if_splits)
      with Cons.IH show ?thesis by auto
    qed
  next
    case False
    with Cons.prems show ?thesis
      by (auto simp: timedelta_days_def datetime_sub_def split: if_splits)
  qed
qed

text \<open>
  Claim C6, as amended. The backfill reads only cache entries dated between 1 and
  \<open>max(1, backfill_days)\<close> days before today, and when those dates exist in the calendar
  and the test for the existence of their files does not raise, it returns the first entry
  among them that decodes to a non-empty list, cut to \<open>limit\<close>, or the empty list when there
  is none. It raises only OverflowError, for a date outside the calendar, or what the test
  for the existence of a file of the window raises.
\<close>

theorem backfill_window:
  assumes "backfill_from_recent_cache L self w files limit = (r, evs)"
  shows "(\<forall>e\<in>set evs. \<exists>i. 1 \<le> i \<and> i \<le> max 1 (backfill_days (cfg self))
            \<and> (e = CacheExists (date_of (now w) - i) \<or> e = CacheLoad (date_of (now w) - i)))
         \<and> (max 1 (backfill_days (cfg self)) * day_us \<le> now w \<and> now w \<le> datetime_max
              \<and> (\<forall>i e. 1 \<le> i \<and> i \<le> max 1 (backfill_days (cfg self))
                     \<longrightarrow> files (date_of (now w) - i) \<noteq> Some (Inl e))
              \<longrightarrow> r = Inr (backfill_spec L w files limit [1 .. max 1 (backfill_days (cfg self))]))
         \<and> (\<forall>e. r = Inl e \<longrightarrow>
               e = OverflowError
               \<or> (\<exists>i. 1 \<le> i \<and> i \<le> max 1 (backfill_days (cfg self))
                      \<and> files (date_of (now w) - i) = Some (Inl e)))"
proof -
  let ?W = "max 1 (backfill_days (cfg self))"
  from assms have r: "r = fst (backfill_loop L w files limit [1 .. ?W])"
    and evs: "evs = snd (backfill_loop L w files limit [1 .. ?W])"
    by (simp_all add: backfill_from_recent_cache_def)
  have "\<exists>i. 1 \<le> i \<and> i \<le> ?W
            \<and> (e = CacheExists (date_of (now w) - i) \<or> e = CacheLoad (date_of (now w) - i))"
    if "e \<in> set evs" for e
    using backfill_loop_events [of e L w files limit "[1 .. ?W]"] that evs by auto
  moreover have "r = Inr (backfill_spec L w files limit [1 .. ?W])"
    if w: "?W * day_us \<le> now w" "now w \<le> datetime_max"
      and ok: "\<forall>i e. 1 \<le> i \<and> i \<le> ?W \<longrightarrow> files (date_of (now w) - i) \<noteq> Some (Inl e)"
  proof -
    from ok have no: "\<forall>i\<in>set [1 .. ?W]. lookup_error files (date_of (now w) - i) = None"
      by (simp add: lookup_error_None)
    have "0 \<le> i \<and> i * day_us \<le> now w" if "i \<in> set [1 .. ?W]" for i
    proof -
      from that have i: "1 \<le> i" "i \<le> ?W" by simp_all
      then have "i * day_us \<le> ?W * day_us" by (simp add: day_us_def)
      with w(1) i show ?thesis by simp
    qed
    then have "\<forall>i\<in>set [1 .. ?W]. 0 \<le> i \<and> i * day_us \<le> now w" by blast
    from backfill_loop_result [OF this w(2) no] r show ?thesis by simp
  qed
  moreover have "e = OverflowError
      \<or> (\<exists>i. 1 \<le> i \<and> i \<le> ?W \<and> files (date_of (now w) - i) = Some (Inl e))"
    if "r = Inl e" for e
    using backfill_loop_raises [of L w files limit "[1 .. ?W]" e] that r by auto
  ultimately show ?thesis by blast
qed

lemma yesterday_run:
  "backfill_loop lib0 dead_world yesterday_files 20 (1 # days) =
     (Inr [u ''old''], [CacheExists 739582, CacheLoad 739582])"
proof -
  have td: "timedelta_days 1 = Inr (1 * day_us)"
    by (simp add: timedelta_days_def)
  have sub: "datetime_sub (now dead_world) (1 * day_us) = Inr (now dead_world - 1 * day_us)"
    by (simp add: datetime_sub_def dead_world_def day_us_def datetime_max_def)
  show ?thesis
    unfolding backfill_loop_step [OF td sub]
    by (simp add: today_dead items_at_def lookup_error_def yesterday_files_def py_take_def
        py_str_def)
qed

theorem backfill_window_witness:
  "backfill_from_recent_cache lib0 \<lparr>cfg = default_cfg, pytrends_ok = True\<rparr> dead_world
      yesterday_files 20 = (Inr [u ''old''], [CacheExists 739582, CacheLoad 739582])
   \<and> 7 * day_us \<le> now dead_world \<and> now dead_world \<le> datetime_max
   \<and> (\<forall>d e. yesterday_files d \<noteq> Some (Inl e))
   \<and> backfill_spec lib0 dead_world yesterday_files 20 [1 .. 7] = [u ''old'']"
proof -
  let ?self = "\<lparr>cfg = default_cfg, pytrends_ok = True\<rparr>"
  have W: "max 1 (backfill_days (cfg ?self)) = 7"
    by (simp add: default_cfg_def)
  have run: "backfill_from_recent_cache lib0 ?self dead_world yesterday_files 20 =
      (Inr [u ''old''], [CacheExists 739582, CacheLoad 739582])"
  proof -
    have up: "[1 .. 7 :: int] = 1 # [2, 3, 4, 5, 6, 7]" by code_simp
    show ?thesis
      unfolding backfill_from_recent_cache_def W up by (rule yesterday_run)
  qed
  have ok: "7 * day_us \<le> now dead_world" "now dead_world \<le> datetime_max"
    by (simp_all add: dead_world_def day_us_def datetime_max_def)
  have no: "\<forall>d e. yesterday_files d \<noteq> Some (Inl e)"
    by (simp add: yesterday_files_def)
  from backfill_window [OF run] W ok no run show ?thesis
    by simp
qed

text \<open>The claim as stated fails for a window of 0 days: the entry of yesterday, one day
  old, is still read and returned.\<close>

theorem backfill_window_counterexample:
  "backfill_from_recent_cache lib0 \<lparr>cfg = default_cfg\<lparr>backfill_days := 0\<rparr>, pytrends_ok = True\<rparr>
      dead_world yesterday_files 20 =
     (Inr [u ''old''],
      [CacheExists (date_of (now dead_world) - 1), CacheLoad (date_of (now dead_world) - 1)])
   \<and> backfill_days (default_cfg\<lparr>backfill_days := 0\<rparr>) < 1"
proof -
  have W: "max 1 (backfill_days (cfg \<lparr>cfg = default_cfg\<lparr>backfill_days := 0\<rparr>, pytrends_ok = True\<rparr>)) = 1"
    by simp
  have up: "[1 .. 1 :: int] = 1 # []" by code_simp
  have "backfill_from_recent_cache lib0
      \<lparr>cfg = default_cfg\<lparr>backfill_days := 0\<rparr>, pytrends_ok = True\<rparr> dead_world yesterday_files 20 =
     (Inr [u ''old''], [CacheExists 739582, CacheLoad 739582])"
    unfolding backfill_from_recent_cache_def W up by (rule yesterday_run)
  then show ?thesis by (simp add: today_dead)
qed

text \<open>
  Claim C8. The default keywords and the shuffled seed terms of the backup depend on the
  clock only through the calendar date: two worlds on the same date give the same lists
  (for the same region, limit and seed phrase). The seed of the shuffle is the date integer
  for the backup, and the date integer XOR the sum of the region's code points for the
  defaults.
\<close>

theorem defaults_and_seeds_deterministic:
  assumes "date_of (now w) = date_of (now w')"
  shows "default_keywords L w region limit = default_keywords L w' region limit
         \<and> naver_seeds L self w = naver_seeds L self w'
         \<and> default_keywords L w region limit =
             py_take (max 5 limit)
               (shuffle L (yyyymmdd L (date_of (now w)) XOR sum_list (map int region)) base_pool)
         \<and> naver_seeds L self w =
             shuffle L (yyyymmdd L (date_of (now w)))
               (filter (\<lambda>t. t \<noteq> []) (map strip (py_split 44 (naver_seed (cfg self)))))"
  using assms by (simp add: default_keywords_def naver_seeds_def Let_def)

theorem defaults_and_seeds_deterministic_witness:
  "date_of (now dead_world) = date_of (now (dead_world\<lparr>now := 63900003600000000, requests_ok := True\<rparr>))
   \<and> now dead_world < now (dead_world\<lparr>now := 63900003600000000, requests_ok := True\<rparr>)
   \<and> default_keywords lib0 dead_world (u ''KR'') 3 =
       default_keywords lib0 (dead_world\<lparr>now := 63900003600000000, requests_ok := True\<rparr>) (u ''KR'') 3
   \<and> naver_seeds lib0 \<lparr>cfg = default_cfg, pytrends_ok = True\<rparr> dead_world =
       naver_seeds lib0 \<lparr>cfg = default_cfg, pytrends_ok = True\<rparr>
         (dead_world\<lparr>now := 63900003600000000, requests_ok := True\<rparr>)"
proof -
  have d: "date_of (now dead_world) =
      date_of (now (dead_world\<lparr>now := 63900003600000000, requests_ok := True\<rparr>))"
    by (simp add: date_of_def dead_world_def day_us_def)
  have lt: "now dead_world < now (dead_world\<lparr>now := 63900003600000000, requests_ok := True\<rparr>)"
    by (simp add: dead_world_def)
  from defaults_and_seeds_deterministic [OF d] d lt show ?thesis
    by blast
qed

subsection \<open>The fallback chain\<close>

lemma cache_tell [simp]: "cache (tell evs s) = cache s"
  by (simp add: tell_def)

lemma trace_tell [simp]: "trace (tell evs s) = trace s @ evs"
  by (simp add: tell_def)

lemma trace_write_cache [simp]: "trace (write_cache w d ks s) = trace s @ [CacheWrite d ks]"
  by (simp add: write_cache_def Let_def split: write_outcome.splits)

lemma length_py_take: "0 \<le> n \<Longrightarrow> int (length (py_take n xs)) \<le> n"
  by (simp add: py_take_def)

lemma py_take_nonempty: "1 \<le> n \<Longrightarrow> xs \<noteq> [] \<Longrightarrow> py_take n xs \<noteq> []"
  by (simp add: py_take_def)

lemma py_take_prefix: "\<exists>m. py_take n xs = take m xs"
  by (auto simp: py_take_def)

lemma py_take_twice: "0 \<le> n \<Longrightarrow> n \<le> k \<Longrightarrow> py_take n (py_take k xs) = py_take n xs"
  by (simp add: py_take_def min_def)

lemma py_take_Nil [simp]: "py_take n [] = []"
  by (simp add: py_take_def)

text \<open>The answers of the chain after the cache, tier by tier.\<close>

lemma after_cache_cases:
  assumes "after_cache L self w d region limit s = (r, s')"
  shows "(\<exists>e. r = Inl e)
       \<or> (\<exists>ys. ys \<noteq> [] \<and> r = Inr (py_take limit ys))
       \<or> (allow_defaults (cfg self) \<and> r = Inr (py_take limit (default_keywords L w region limit)))
       \<or> (\<not> allow_defaults (cfg self) \<and> r = Inr [])"
proof -
  obtain r1 evs1 where f: "fetch_with_retry L self w region limit = (r1, evs1)"
    by (cases "fetch_with_retry L self w region limit")
  obtain n evs2 where n: "(if use_naver_backup (cfg self)
       then fetch_from_naver_backup L self w limit else ([], [])) = (n, evs2)"
    by (cases "if use_naver_backup (cfg self)
       then fetch_from_naver_backup L self w limit else ([], [])")
  obtain r3 evs3 where b: "backfill_from_recent_cache L self w (cache s) limit = (r3, evs3)"
    by (cases "backfill_from_recent_cache L self w (cache s) limit")
  from assms show ?thesis
    unfolding after_cache_def f n
    by (cases r1; cases r3) (auto simp: b Let_def split: if_splits)
qed

lemma get_daily_keywords_cases:
  assumes "get_daily_keywords L self w date region limit s = (r, s')"
  shows "(\<exists>e. r = Inl e)
       \<or> (\<exists>ys. ys \<noteq> [] \<and> r = Inr (py_take limit ys))
       \<or> (\<exists>s1. cache s1 = cache s
             \<and> after_cache L self w (target_date w date) (region_of L self region) limit s1 = (r, s'))"
proof (cases "fst (read_cache_if_fresh L self w (cache s) (target_date w date))")
  case (Inl e)
  then obtain evs where
    "read_cache_if_fresh L self w (cache s) (target_date w date) = (Inl e, evs)"
    by (cases "read_cache_if_fresh L self w (cache s) (target_date w date)") simp
  with assms have "r = Inl e"
    by (simp add: get_daily_keywords_def Let_def)
  then show ?thesis by blast
next
  case (Inr cw)
  then obtain c why evs where rd:
    "read_cache_if_fresh L self w (cache s) (target_date w date) = (Inr (c, why), evs)"
    by (cases "read_cache_if_fresh L self w (cache s) (target_date w date)"; cases cw) simp
  show ?thesis
  proof (cases c)
    case None
    with assms rd have "after_cache L self w (target_date w date) (region_of L self region) limit
        (tell evs s) = (r, s')"
      by (simp add: get_daily_keywords_def Let_def)
    then show ?thesis using cache_tell by blast
  next
    case (Some cached)
    show ?thesis
    proof (cases "cached = []")
      case True
      with assms rd Some have "after_cache L self w (target_date w date) (region_of L self region)
          limit (tell evs s) = (r, s')"
        by (simp add: get_daily_keywords_def Let_def)
      then show ?thesis using cache_tell by blast
    next
      case False
      with assms rd Some have "r = Inr (py_take limit cached)"
        by (auto simp: get_daily_keywords_def Let_def)
      with False show ?thesis by blast
    qed
  qed
qed

lemma length_base_pool: "length base_pool = 25"
  by (simp add: base_pool_def)

lemma length_default_keywords:
  assumes "\<forall>seed xs. length (shuffle L seed xs) = length xs"
  shows "length (default_keywords L w region limit) = min (nat (max 5 limit)) 25"
proof -
  have "(0::int) \<le> max 5 limit" by simp
  then show ?thesis
    using assms by (simp add: default_keywords_def Let_def py_take_def length_base_pool)
qed

lemma backfill_returns:
  assumes "max 1 (backfill_days (cfg self)) * day_us \<le> now w" and "now w \<le> datetime_max"
    and "\<forall>d. lookup_error files d = None"
  shows "fst (backfill_from_recent_cache L self w files limit) =
     Inr (backfill_spec L w files limit [1 .. max 1 (backfill_days (cfg self))])"
proof -
  let ?W = "max 1 (backfill_days (cfg self))"
  have "0 \<le> i \<and> i * day_us \<le> now w" if "i \<in> set [1 .. ?W]" for i
  proof -
    from that have i: "1 \<le> i" "i \<le> ?W" by simp_all
    then have "i * day_us \<le> ?W * day_us" by (simp add: day_us_def)
    with assms(1) i show ?thesis by simp
  qed
  then have "\<forall>i\<in>set [1 .. ?W]. 0 \<le> i \<and> i * day_us \<le> now w" by blast
  from backfill_loop_result [OF this assms(2)] assms(3) show ?thesis
    by (simp add: backfill_from_recent_cache_def)
qed

text \<open>
  Claim C1. With a limit that is not negative, a list returned by
  \<^verbatim>\<open>get_daily_keywords\<close> has at most \<open>limit\<close> entries, whichever tier gave it.
\<close>

theorem get_daily_keywords_length:
  assumes "0 \<le> limit" and "get_daily_keywords L self w date region limit s = (Inr xs, s')"
  shows "int (length xs) \<le> limit"
proof -
  from get_daily_keywords_cases [OF assms(2)]
  consider ys where "xs = py_take limit ys"
    | s1 where "after_cache L self w (target_date w date) (region_of L self region) limit s1
        = (Inr xs, s')"
    by auto
  then show ?thesis
  proof cases
    case 1
    with assms(1) show ?thesis by (simp add: length_py_take)
  next
    case 2
    from after_cache_cases [OF 2]
    have "(\<exists>ys. xs = py_take limit ys) \<or> xs = []" by auto
    with assms(1) show ?thesis by (auto simp: length_py_take)
  qed
qed

text \<open>
  Claim C3, as amended. With defaults enabled and a limit of at least 1, a list returned by
  \<^verbatim>\<open>get_daily_keywords\<close> is never empty; so the empty list is returned only when defaults
  are disabled or the limit is below 1. (The shuffle of the library keeps the length of
  the list.)
\<close>

theorem get_daily_keywords_nonempty:
  assumes "\<forall>seed ys. length (shuffle L seed ys) = length ys"
    and "allow_defaults (cfg self)" and "1 \<le> limit"
    and "get_daily_keywords L self w date region limit s = (Inr xs, s')"
  shows "xs \<noteq> []"
proof -
  from get_daily_keywords_cases [OF assms(4)]
  consider ys where "ys \<noteq> []" "xs = py_take limit ys"
    | s1 where "after_cache L self w (target_date w date) (region_of L self region) limit s1
        = (Inr xs, s')"
    by auto
  then show ?thesis
  proof cases
    case 1
    with assms(3) show ?thesis by (simp add: py_take_nonempty)
  next
    case 2
    from after_cache_cases [OF 2] assms(2)
    consider ys where "ys \<noteq> []" "xs = py_take limit ys"
      | "xs = py_take limit (default_keywords L w (region_of L self region) limit)"
      by auto
    then show ?thesis
    proof cases
      case 1
      with assms(3) show ?thesis by (simp add: py_take_nonempty)
    next
      case 2
      have "length (default_keywords L w (region_of L self region) limit) \<noteq> 0"
        unfolding length_default_keywords [OF assms(1)] by simp
      then have "default_keywords L w (region_of L self region) limit \<noteq> []" by simp
      with 2 assms(3) show ?thesis by (simp add: py_take_nonempty)
    qed
  qed
qed

lemma read_cache_fresh:
  assumes "files d = Some (Inr f)" and "fresh self w f"
  shows "read_cache_if_fresh L self w files d =
     (case content f of
        None \<Rightarrow> (Inr (None, MissError), [CacheExists d, CacheStat d, CacheLoad d])
      | Some (JArr xs) \<Rightarrow>
          (Inr (Some (map (py_str L) xs), Fresh), [CacheExists d, CacheStat d, CacheLoad d])
      | Some _ \<Rightarrow> (Inr (None, MissInvalid), [CacheExists d, CacheStat d, CacheLoad d]))"
  using assms
  by (auto simp: read_cache_if_fresh_def fresh_def timedelta_days_def
      split: option.splits json.splits)

text \<open>The chain after the cache when the primary source, the backup and the backfill all
  come back empty.\<close>

lemma after_cache_last_tiers:
  assumes "fetch_with_retry L self w region limit = (Inr [], evs1)"
    and "(if use_naver_backup (cfg self)
          then fetch_from_naver_backup L self w limit else ([], [])) = ([], evs2)"
    and "backfill_from_recent_cache L self w (cache s) limit = (Inr [], evs3)"
  shows "after_cache L self w d region limit s =
     (if allow_defaults (cfg self)
      then (Inr (py_take limit (default_keywords L w region limit)),
            write_cache w d (default_keywords L w region limit)
              (tell evs3 (tell evs2 (tell evs1 s))))
      else (Inr [], write_cache w d [] (tell evs3 (tell evs2 (tell evs1 s)))))"
  unfolding after_cache_def assms(1) assms(2)
  by (simp add: assms(3) Let_def)

lemma backfill_loop_fst_cong:
  assumes "\<forall>d. items_at files d = items_at files' d"
    and "\<forall>d. lookup_error files d = lookup_error files' d"
  shows "fst (backfill_loop L w files limit days) = fst (backfill_loop L w files' limit days)"
proof (induction days)
  case Nil
  show ?case by simp
next
  case (Cons i days)
  show ?case
  proof (cases "timedelta_days i = Inr (i * day_us)
      \<and> datetime_sub (now w) (i * day_us) = Inr (now w - i * day_us)")
    case True
    then have td: "timedelta_days i = Inr (i * day_us)"
      and sub: "datetime_sub (now w) (i * day_us) = Inr (now w - i * day_us)" by simp_all
    show ?thesis
      unfolding backfill_loop_step [OF td sub]
      using assms Cons.IH by (simp add: Let_def split: option.splits)
  next
    case False
    then show ?thesis
      by (auto simp: timedelta_days_def datetime_sub_def split: if_splits)
  qed
qed

lemma after_cache_fst_cong:
  assumes "fst (backfill_from_recent_cache L self w (cache s1) limit) =
           fst (backfill_from_recent_cache L self w (cache s2) limit)"
  shows "fst (after_cache L self w d region limit s1) = fst (after_cache L self w d region limit s2)"
proof -
  obtain r1 evs1 where f: "fetch_with_retry L self w region limit = (r1, evs1)"
    by (cases "fetch_with_retry L self w region limit")
  obtain n evs2 where n: "(if use_naver_backup (cfg self)
       then fetch_from_naver_backup L self w limit else ([], [])) = (n, evs2)"
    by (cases "if use_naver_backup (cfg self)
       then fetch_from_naver_backup L self w limit else ([], [])")
  obtain r3 e3 where b1: "backfill_from_recent_cache L self w (cache s1) limit = (r3, e3)"
    by (cases "backfill_from_recent_cache L self w (cache s1) limit")
  with assms obtain e3' where b2: "backfill_from_recent_cache L self w (cache s2) limit = (r3, e3')"
    by (cases "backfill_from_recent_cache L self w (cache s2) limit") simp
  show ?thesis
    unfolding after_cache_def f n
    by (cases r1; cases r3) (simp_all add: b1 b2 Let_def)
qed

lemma after_cache_trace:
  "set (snd (fetch_with_retry L self w region limit))
     \<subseteq> set (trace (snd (after_cache L self w d region limit s)))"
proof -
  obtain r1 evs1 where f: "fetch_with_retry L self w region limit = (r1, evs1)"
    by (cases "fetch_with_retry L self w region limit")
  obtain n evs2 where n: "(if use_naver_backup (cfg self)
       then fetch_from_naver_backup L self w limit else ([], [])) = (n, evs2)"
    by (cases "if use_naver_backup (cfg self)
       then fetch_from_naver_backup L self w limit else ([], [])")
  obtain r3 e3 where b: "backfill_from_recent_cache L self w (cache s) limit = (r3, e3)"
    by (cases "backfill_from_recent_cache L self w (cache s) limit")
  show ?thesis
    unfolding after_cache_def f n
    by (cases r1; cases r3) (auto simp: b Let_def)
qed

text \<open>
  Claim C4, as amended. When the cache holds, for the date asked for, a fresh entry that
  decodes to a non-empty list, \<^verbatim>\<open>get_daily_keywords\<close> returns a prefix of that list (its
  cut to \<open>limit\<close>); the only effects are the three reads of that entry: the cache is left
  as it was, nothing is written and the primary source is not asked.
\<close>

theorem cache_hit_short_circuit:
  assumes "cache s (target_date w date) = Some (Inr f)" and "fresh self w f"
    and "content f = Some (JArr (x # xs))"
  shows "fst (get_daily_keywords L self w date region limit s) =
           Inr (py_take limit (map (py_str L) (x # xs)))
         \<and> (\<exists>n. py_take limit (map (py_str L) (x # xs)) = take n (map (py_str L) (x # xs)))
         \<and> cache (snd (get_daily_keywords L self w date region limit s)) = cache s
         \<and> trace (snd (get_daily_keywords L self w date region limit s)) =
             trace s @ [CacheExists (target_date w date), CacheStat (target_date w date),
                        CacheLoad (target_date w date)]"
proof -
  have "get_daily_keywords L self w date region limit s =
      (Inr (py_take limit (map (py_str L) (x # xs))),
       tell [CacheExists (target_date w date), CacheStat (target_date w date),
             CacheLoad (target_date w date)] s)"
    by (simp add: get_daily_keywords_def Let_def read_cache_fresh [where files = "cache s" and d = "target_date w date", OF assms(1,2)] assms(3))
  then show ?thesis
    using py_take_prefix [of limit "map (py_str L) (x # xs)"] by simp
qed

text \<open>
  Claim C10. A fresh entry that decodes to the empty list is not returned: the call goes
  on with the primary source exactly as after a miss, and gives the answer it would give
  if the entry did not exist. Such an entry is what the last tier writes when every source
  is empty and defaults are disabled.
\<close>

theorem fresh_empty_entry_is_a_miss:
  assumes "cache s (target_date w date) = Some (Inr f)" and "fresh self w f"
    and "content f = Some (JArr [])"
  shows "get_daily_keywords L self w date region limit s =
           after_cache L self w (target_date w date) (region_of L self region) limit
             (tell [CacheExists (target_date w date), CacheStat (target_date w date),
                    CacheLoad (target_date w date)] s)
         \<and> fst (get_daily_keywords L self w date region limit s) =
             fst (get_daily_keywords L self w date region limit
                    (s\<lparr>cache := (cache s)(target_date w date := None)\<rparr>))
         \<and> set (snd (fetch_with_retry L self w (region_of L self region) limit))
             \<subseteq> set (trace (snd (get_daily_keywords L self w date region limit s)))
         \<and> (write_outcome w (target_date w date) = WriteOk \<longrightarrow>
              cache (write_cache w (target_date w date) [] s) (target_date w date) =
                Some (Inr \<lparr>mtime = Some (now w), content = Some (JArr [])\<rparr>))"
proof -
  let ?d = "target_date w date"
  let ?reg = "region_of L self region"
  let ?s0 = "s\<lparr>cache := (cache s)(?d := None)\<rparr>"
  have hit: "get_daily_keywords L self w date region limit s =
      after_cache L self w ?d ?reg limit (tell [CacheExists ?d, CacheStat ?d, CacheLoad ?d] s)"
    by (simp add: get_daily_keywords_def Let_def read_cache_fresh [where files = "cache s" and d = "target_date w date", OF assms(1,2)] assms(3))
  have miss: "get_daily_keywords L self w date region limit ?s0 =
      after_cache L self w ?d ?reg limit (tell [CacheExists ?d] ?s0)"
    by (simp add: get_daily_keywords_def Let_def read_cache_if_fresh_def)
  have "\<forall>d. items_at (cache s) d = items_at (cache ?s0) d"
    using assms(1,3) by (simp add: items_at_def)
  moreover have "\<forall>d. lookup_error (cache s) d = lookup_error (cache ?s0) d"
    using assms(1) by (simp add: lookup_error_def)
  ultimately have "fst (backfill_from_recent_cache L self w (cache s) limit) =
      fst (backfill_from_recent_cache L self w (cache ?s0) limit)"
    unfolding backfill_from_recent_cache_def by (rule backfill_loop_fst_cong)
  then have same: "fst (after_cache L self w ?d ?reg limit
        (tell [CacheExists ?d, CacheStat ?d, CacheLoad ?d] s)) =
      fst (after_cache L self w ?d ?reg limit (tell [CacheExists ?d] ?s0))"
    by (intro after_cache_fst_cong) simp
  have wr: "write_outcome w ?d = WriteOk \<longrightarrow>
      cache (write_cache w ?d [] s) ?d =
        Some (Inr \<lparr>mtime = Some (now w), content = Some (JArr [])\<rparr>)"
    by (simp add: write_cache_def Let_def)
  from hit miss same wr after_cache_trace [of L self w ?reg limit ?d] show ?thesis
    by simp
qed

text \<open>
  Claim C7, as amended. The default keywords are the first \<open>max(5, limit)\<close> entries of the
  shuffled pool of 25. When the cache, the primary source, the backup and the backfill give
  nothing and defaults are enabled, \<^verbatim>\<open>get_daily_keywords\<close> returns the first \<open>limit\<close> of
  them: for a limit that is not negative a list of length \<open>min(limit, 25)\<close>, which is not
  empty when the limit is at least 1. (The shuffle of the library keeps the length of the
  list.)
\<close>

theorem defaults_tier:
  assumes "\<forall>seed ys. length (shuffle L seed ys) = length ys"
    and "map_sum id fst (fst (read_cache_if_fresh L self w (cache s) (target_date w date)))
           \<in> {Inr None, Inr (Some [])}"
    and "fst (fetch_with_retry L self w (region_of L self region) limit) = Inr []"
    and "use_naver_backup (cfg self) \<longrightarrow> fst (fetch_from_naver_backup L self w limit) = []"
    and "fst (backfill_from_recent_cache L self w (cache s) limit) = Inr []"
    and "allow_defaults (cfg self)" and "0 \<le> limit"
  shows "default_keywords L w (region_of L self region) limit =
           py_take (max 5 limit)
             (shuffle L (yyyymmdd L (date_of (now w))
                         XOR sum_list (map int (region_of L self region))) base_pool)
         \<and> fst (get_daily_keywords L self w date region limit s) =
             Inr (py_take limit (shuffle L (yyyymmdd L (date_of (now w))
                         XOR sum_list (map int (region_of L self region))) base_pool))
         \<and> (\<forall>xs. fst (get_daily_keywords L self w date region limit s) = Inr xs \<longrightarrow>
               length xs = min (nat limit) 25 \<and> (1 \<le> limit \<longrightarrow> xs \<noteq> []))"
proof -
  let ?d = "target_date w date"
  let ?reg = "region_of L self region"
  let ?pool = "shuffle L (yyyymmdd L (date_of (now w)) XOR sum_list (map int ?reg)) base_pool"
  have dk: "default_keywords L w ?reg limit = py_take (max 5 limit) ?pool"
    by (simp add: default_keywords_def Let_def)
  from assms(2) obtain c why evs
    where rd: "read_cache_if_fresh L self w (cache s) ?d = (Inr (c, why), evs)"
      and c: "c = None \<or> c = Some []"
    by (cases "read_cache_if_fresh L self w (cache s) ?d";
        cases "fst (read_cache_if_fresh L self w (cache s) ?d)") auto
  obtain evs1 where f: "fetch_with_retry L self w ?reg limit = (Inr [], evs1)"
    using assms(3) by (cases "fetch_with_retry L self w ?reg limit") simp
  have "fst (if use_naver_backup (cfg self)
       then fetch_from_naver_backup L self w limit else ([], [])) = []"
    using assms(4) by simp
  then obtain evs2 where n: "(if use_naver_backup (cfg self)
       then fetch_from_naver_backup L self w limit else ([], [])) = ([], evs2)"
    by (cases "if use_naver_backup (cfg self)
       then fetch_from_naver_backup L self w limit else ([], [])") simp
  obtain evs3 where b: "backfill_from_recent_cache L self w (cache (tell evs s)) limit
      = (Inr [], evs3)"
    using assms(5) by (cases "backfill_from_recent_cache L self w (cache s) limit") simp
  have "get_daily_keywords L self w date region limit s =
      after_cache L self w ?d ?reg limit (tell evs s)"
    using c rd by (auto simp: get_daily_keywords_def Let_def)
  also have "fst \<dots> = Inr (py_take limit (default_keywords L w ?reg limit))"
    unfolding after_cache_last_tiers [OF f n b] using assms(6) by simp
  also have "py_take limit (default_keywords L w ?reg limit) = py_take limit ?pool"
    unfolding dk using assms(7) by (intro py_take_twice) simp_all
  finally have res: "fst (get_daily_keywords L self w date region limit s) =
      Inr (py_take limit ?pool)" .
  have len: "length (py_take limit ?pool) = min (nat limit) 25"
    using assms(1,7) by (simp add: py_take_def length_base_pool)
  have "py_take limit ?pool \<noteq> []" if "1 \<le> limit"
  proof -
    from len that have "length (py_take limit ?pool) \<noteq> 0" by simp
    then show ?thesis by simp
  qed
  with dk res len show ?thesis by simp
qed

subsection \<open>Calls in concrete worlds\<close>

lemma backfill_spec_none:
  assumes "\<forall>d. items_at files d = []"
  shows "backfill_spec L w files limit days = []"
proof -
  have "List.find (\<lambda>i. items_at files (date_of (now w) - i) \<noteq> []) days = None"
    using assms by (simp add: find_None_iff)
  then show ?thesis by (simp add: backfill_spec_def)
qed

lemma no_backfill:
  assumes "\<forall>d. items_at files d = []"
    and "max 1 (backfill_days (cfg self)) * day_us \<le> now w" and "now w \<le> datetime_max"
    and "\<forall>d. lookup_error files d = None"
  shows "fst (backfill_from_recent_cache L self w files limit) = Inr []"
  using backfill_returns [OF assms(2,3,4), of L limit] backfill_spec_none [OF assms(1)]
  by simp

lemma collect_seeds_silent:
  assumes "\<forall>i q. suggest w i q = []"
  shows "collect_seeds w limit i seeds cs = (cs, map NaverGet seeds)"
  using assms by (induction seeds arbitrary: i) (simp_all add: Let_def)

lemma silent_backup:
  assumes "\<forall>i q. http_get w i q = Inl IOError"
  shows "fst (fetch_from_naver_backup L self w limit) = []"
proof -
  have "\<forall>i q. suggest w i q = []"
    using assms by (simp add: suggest_def suggest_body_def)
  then show ?thesis
    by (simp add: fetch_from_naver_backup_def Let_def collect_seeds_silent)
qed

text \<open>The whole call when no source answers and the cache holds no list.\<close>

lemma quiet_call:
  assumes "\<forall>k. trendreq w k = Some IOError" and "\<forall>k. jitter w k = 1 / 2"
    and "sleep_min (cfg self) = 2" and "sleep_max (cfg self) = 5" and "pytrends_ok self"
    and "use_naver_backup (cfg self) \<longrightarrow> fst (fetch_from_naver_backup L self w limit) = []"
    and "\<forall>d. items_at (cache s) d = []"
    and "max 1 (backfill_days (cfg self)) * day_us \<le> now w" and "now w \<le> datetime_max"
    and "map_sum id fst (fst (read_cache_if_fresh L self w (cache s) (target_date w date)))
           \<in> {Inr None, Inr (Some [])}"
    and "\<forall>d. lookup_error (cache s) d = None"
  shows "fst (get_daily_keywords L self w date region limit s) =
     (if allow_defaults (cfg self)
      then Inr (py_take limit (default_keywords L w (region_of L self region) limit))
      else Inr [])"
    and "TrendReq 1 \<in> set (trace (snd (get_daily_keywords L self w date region limit s)))"
    and "CacheWrite (target_date w date)
           (if allow_defaults (cfg self)
            then default_keywords L w (region_of L self region) limit else [])
         \<in> set (trace (snd (get_daily_keywords L self w date region limit s)))"
proof -
  let ?d = "target_date w date"
  let ?reg = "region_of L self region"
  from assms(10) obtain c why evs
    where rd: "read_cache_if_fresh L self w (cache s) ?d = (Inr (c, why), evs)"
      and c: "c = None \<or> c = Some []"
    by (cases "read_cache_if_fresh L self w (cache s) ?d";
        cases "fst (read_cache_if_fresh L self w (cache s) ?d)") auto
  note f = all_fail_fetch [OF assms(1-5), of L ?reg limit]
  have "fst (if use_naver_backup (cfg self)
       then fetch_from_naver_backup L self w limit else ([], [])) = []"
    using assms(6) by simp
  then obtain evs2 where n: "(if use_naver_backup (cfg self)
       then fetch_from_naver_backup L self w limit else ([], [])) = ([], evs2)"
    by (cases "if use_naver_backup (cfg self)
       then fetch_from_naver_backup L self w limit else ([], [])") simp
  have "fst (backfill_from_recent_cache L self w (cache (tell evs s)) limit) = Inr []"
    using no_backfill [OF _ assms(8,9), of "cache s" L limit] assms(7,11) by simp
  then obtain evs3 where b: "backfill_from_recent_cache L self w (cache (tell evs s)) limit
      = (Inr [], evs3)"
    by (cases "backfill_from_recent_cache L self w (cache (tell evs s)) limit") simp
  have eq: "get_daily_keywords L self w date region limit s =
      after_cache L self w ?d ?reg limit (tell evs s)"
    using c rd by (auto simp: get_daily_keywords_def Let_def)
  show "fst (get_daily_keywords L self w date region limit s) =
     (if allow_defaults (cfg self)
      then Inr (py_take limit (default_keywords L w ?reg limit)) else Inr [])"
    unfolding eq after_cache_last_tiers [OF f n b] by simp
  show "TrendReq 1 \<in> set (trace (snd (get_daily_keywords L self w date region limit s)))"
    unfolding eq after_cache_last_tiers [OF f n b] by simp
  show "CacheWrite ?d (if allow_defaults (cfg self)
            then default_keywords L w ?reg limit else [])
         \<in> set (trace (snd (get_daily_keywords L self w date region limit s)))"
    unfolding eq after_cache_last_tiers [OF f n b] by simp
qed

lemma items_at_empty_st [simp]: "items_at (cache empty_st) d = []"
  by (simp add: items_at_def empty_st_def)

lemma items_at_empty_hit_st [simp]: "items_at (cache empty_hit_st) d = []"
  by (simp add: items_at_def empty_hit_st_def)

lemma lookup_empty_st [simp]: "lookup_error (cache empty_st) d = None"
  by (simp add: lookup_error_def empty_st_def)

lemma lookup_empty_hit_st [simp]: "lookup_error (cache empty_hit_st) d = None"
  by (simp add: lookup_error_def empty_hit_st_def)

lemma region_client0 [simp]: "region_of lib0 client0 None = u ''KR''"
  by (simp add: region_of_def lib0_def client0_def default_cfg_def)

lemma target_dead [simp]: "target_date dead_world None = 739583"
  by (simp add: target_date_def today_dead)

lemma defaults_KR_3:
  "default_keywords lib0 dead_world (u ''KR'') 3 =
     [[50724, 54536, 49548, 49828], u ''Supabase'', u ''Next.js'', [54028, 51060, 50028],
      [53364, 46972, 50864, 46300]]"
  by (simp add: default_keywords_def today_dead lib0_def u_def py_take_def base_pool_def)

lemma dead_facts:
  "\<forall>k. trendreq dead_world k = Some IOError" "\<forall>k. jitter dead_world k = 1 / 2"
  "\<not> requests_ok dead_world" "now dead_world \<le> datetime_max"
  "7 * day_us \<le> now dead_world"
  by (simp_all add: dead_world_def datetime_max_def day_us_def)

lemma offline_facts:
  "\<forall>k. trendreq offline_world k = Some IOError" "\<forall>k. jitter offline_world k = 1 / 2"
  "\<forall>i q. http_get offline_world i q = Inl IOError" "now offline_world \<le> datetime_max"
  "7 * day_us \<le> now offline_world" "target_date offline_world None = 739583"
  by (simp_all add: offline_world_def dead_world_def datetime_max_def day_us_def
      target_date_def date_of_def)

lemma client0_facts:
  "sleep_min (cfg client0) = 2" "sleep_max (cfg client0) = 5" "pytrends_ok client0"
  "allow_defaults (cfg client0)" "max 1 (backfill_days (cfg client0)) = 7"
  "use_naver_backup (cfg client0)" "cache_ttl_days (cfg client0) = 2"
  by (simp_all add: client0_def default_cfg_def)

lemma dead_backup: "fst (fetch_from_naver_backup L self dead_world limit) = []"
  by (simp add: fetch_from_naver_backup_def dead_facts)

lemma read_empty_st:
  "fst (read_cache_if_fresh L self w (cache empty_st) d) = Inr (None, MissNoFile)"
  by (simp add: read_cache_if_fresh_def empty_st_def)

lemma shuffle_lib0: "\<forall>seed ys. length (shuffle lib0 seed ys) = length ys"
  by (simp add: lib0_def)

lemma fresh_hit:
  "fresh client0 dead_world \<lparr>mtime = Some 63899990000000000, content = c\<rparr>"
  by (simp add: fresh_def client0_facts dead_world_def day_us_def)

lemma read_empty_hit_st:
  "fst (read_cache_if_fresh L client0 dead_world (cache empty_hit_st) 739583) =
     Inr (Some [], Fresh)"
proof -
  have "cache empty_hit_st 739583 =
      Some (Inr \<lparr>mtime = Some 63899990000000000, content = Some (JArr [])\<rparr>)"
    by (simp add: empty_hit_st_def)
  from read_cache_fresh [where files = "cache empty_hit_st" and d = 739583 and L = L,
      OF this fresh_hit [of "Some (JArr [])"]]
  show ?thesis by simp
qed

text \<open>The call of the witnesses: nothing answers, the cache is empty, the limit is 3.\<close>

lemma dead_call:
  "fst (get_daily_keywords lib0 client0 dead_world None None 3 empty_st) =
     Inr [[50724, 54536, 49548, 49828], u ''Supabase'', u ''Next.js'']"
proof -
  have "fst (get_daily_keywords lib0 client0 dead_world None None 3 empty_st) =
      Inr (py_take 3 (default_keywords lib0 dead_world (u ''KR'') 3))"
    using quiet_call(1) [of dead_world client0 lib0 3 empty_st None None]
    by (simp add: dead_facts client0_facts dead_backup read_empty_st)
  then show ?thesis by (simp add: defaults_KR_3 py_take_def)
qed

theorem get_daily_keywords_length_witness:
  "(0::int) \<le> 3
   \<and> fst (get_daily_keywords lib0 client0 dead_world None None 3 empty_st) =
       Inr [[50724, 54536, 49548, 49828], u ''Supabase'', u ''Next.js'']
   \<and> int (length [[50724, 54536, 49548, 49828], u ''Supabase'', u ''Next.js'']) \<le> 3"
proof -
  have run: "get_daily_keywords lib0 client0 dead_world None None 3 empty_st =
      (Inr [[50724, 54536, 49548, 49828], u ''Supabase'', u ''Next.js''],
       snd (get_daily_keywords lib0 client0 dead_world None None 3 empty_st))"
    using dead_call by (simp add: prod_eq_iff)
  have "(0::int) \<le> 3" by simp
  from get_daily_keywords_length [OF this run] dead_call show ?thesis by simp
qed

theorem get_daily_keywords_nonempty_witness:
  "(\<forall>seed ys. length (shuffle lib0 seed ys) = length ys)
   \<and> allow_defaults (cfg client0) \<and> (1::int) \<le> 3
   \<and> fst (get_daily_keywords lib0 client0 dead_world None None 3 empty_st) =
       Inr [[50724, 54536, 49548, 49828], u ''Supabase'', u ''Next.js'']
   \<and> [[50724, 54536, 49548, 49828], u ''Supabase'', u ''Next.js''] \<noteq> []"
proof -
  have run: "get_daily_keywords lib0 client0 dead_world None None 3 empty_st =
      (Inr [[50724, 54536, 49548, 49828], u ''Supabase'', u ''Next.js''],
       snd (get_daily_keywords lib0 client0 dead_world None None 3 empty_st))"
    using dead_call by (simp add: prod_eq_iff)
  have "(1::int) \<le> 3" by simp
  from get_daily_keywords_nonempty [OF shuffle_lib0 client0_facts(4) this run]
    shuffle_lib0 client0_facts(4) dead_call
  show ?thesis by simp
qed

text \<open>The claim as stated fails with the backup enabled and defaults disabled: when the
  suggestion service does not answer either, the last tier is reached and the list is
  empty, for a limit of 20.\<close>

theorem get_daily_keywords_nonempty_counterexample:
  "use_naver_backup (cfg no_defaults_client) \<and> (1::int) \<le> 20
   \<and> fst (get_daily_keywords lib0 no_defaults_client offline_world None None 20 empty_st) = Inr []"
proof -
  have c: "sleep_min (cfg no_defaults_client) = 2" "sleep_max (cfg no_defaults_client) = 5"
    "pytrends_ok no_defaults_client" "use_naver_backup (cfg no_defaults_client)"
    "\<not> allow_defaults (cfg no_defaults_client)"
    by (simp_all add: no_defaults_client_def default_cfg_def)
  have W: "max 1 (backfill_days (cfg no_defaults_client)) * day_us \<le> now offline_world"
    using offline_facts(5) by (simp add: no_defaults_client_def default_cfg_def)
  have nb: "use_naver_backup (cfg no_defaults_client) \<longrightarrow>
      fst (fetch_from_naver_backup lib0 no_defaults_client offline_world 20) = []"
    using silent_backup [OF offline_facts(3)] by simp
  have it: "\<forall>d. items_at (cache empty_st) d = []" by simp
  have rd: "map_sum id fst (fst (read_cache_if_fresh lib0 no_defaults_client offline_world
      (cache empty_st) (target_date offline_world None))) \<in> {Inr None, Inr (Some [])}"
    by (simp add: read_empty_st)
  have lk: "\<forall>d. lookup_error (cache empty_st) d = None" by simp
  from quiet_call(1) [OF offline_facts(1,2) c(1,2,3) nb it W offline_facts(4) rd lk, of None]
    c(4,5)
  show ?thesis by simp
qed

text \<open>What \<^verbatim>\<open>Path.exists()\<close> raises at line 160 or at line 359, and what
  \<^verbatim>\<open>_fetch_with_retry\<close> raises after a miss, leaves the function and
  \<^verbatim>\<open>get_daily_keywords\<close>.\<close>

lemma backfill_lookup_raises:
  "backfill_from_recent_cache L client0 dead_world (cache locked_st) limit =
     (Inl PermissionError, [CacheExists 739582])"
proof -
  have td: "timedelta_days 1 = Inr (1 * day_us)"
    by (simp add: timedelta_days_def)
  have sub: "datetime_sub (now dead_world) (1 * day_us) = Inr (now dead_world - 1 * day_us)"
    by (simp add: datetime_sub_def dead_world_def day_us_def datetime_max_def)
  have up: "[1 .. 7 :: int] = 1 # [2, 3, 4, 5, 6, 7]" by code_simp
  show ?thesis
    unfolding backfill_from_recent_cache_def client0_facts up backfill_loop_step [OF td sub]
    by (simp add: today_dead lookup_error_def locked_st_def)
qed

lemma lookup_error_propagates:
  assumes "cache s (target_date w date) = Some (Inl e)"
  shows "get_daily_keywords L self w date region limit s =
     (Inl e, tell [CacheExists (target_date w date)] s)"
  using assms by (simp add: get_daily_keywords_def read_cache_if_fresh_def Let_def)

lemma fetch_error_propagates:
  assumes "cache s (target_date w date) = None"
    and "fetch_with_retry L self w (region_of L self region) limit = (Inl e, evs)"
  shows "get_daily_keywords L self w date region limit s =
     (Inl e, tell evs (tell [CacheExists (target_date w date)] s))"
  using assms
  by (simp add: get_daily_keywords_def read_cache_if_fresh_def after_cache_def Let_def)

lemma negative_sleep_max_raises:
  "fst (get_daily_keywords lib0 \<lparr>cfg = negative_cfg, pytrends_ok = True\<rparr> dead_world
          None None 20 empty_st) = Inl ValueError"
  by (simp add: fetch_error_propagates [OF _ negative_delay_raises] empty_st_def)

lemma huge_sleep_raises:
  "fst (get_daily_keywords lib0 \<lparr>cfg = huge_cfg, pytrends_ok = True\<rparr> dead_world
          None None 20 empty_st) = Inl OverflowError"
  by (simp add: fetch_error_propagates [OF _ huge_delay_raises] empty_st_def)

text \<open>
  Claim C2 does not hold of the code. The cache directory of \<open>locked_st\<close> may not be
  searched, so the test \<^verbatim>\<open>p.exists()\<close> of line 160, which stands before the \<^verbatim>\<open>try\<close> of
  \<^verbatim>\<open>_read_cache_if_fresh\<close>, raises PermissionError. With the default configuration, no
  date, the region KR and the limit 20, \<^verbatim>\<open>get_daily_keywords\<close> passes the exception on to
  its caller after this one test: no source is asked and nothing is written.
\<close>

theorem get_daily_keywords_raises:
  "get_daily_keywords lib0 client0 dead_world None (Some (u ''KR'')) 20 locked_st =
     (Inl PermissionError, locked_st\<lparr>trace := [CacheExists 739583]\<rparr>)"
proof -
  have "cache locked_st (target_date dead_world None) = Some (Inl PermissionError)"
    by (simp add: locked_st_def)
  from lookup_error_propagates [OF this, of lib0 client0 "Some (u ''KR'')" 20] show ?thesis
    by (simp add: tell_def locked_st_def)
qed

lemma hit_entry:
  "cache hit_st (target_date dead_world None) =
     Some (Inr \<lparr>mtime = Some 63899990000000000,
                content = Some (JArr [JStr (u ''a''), JStr (u ''b''), JStr (u ''c'')])\<rparr>)"
  by (simp add: hit_st_def)

lemma empty_hit_entry:
  "cache empty_hit_st (target_date dead_world None) =
     Some (Inr \<lparr>mtime = Some 63899990000000000, content = Some (JArr [])\<rparr>)"
  by (simp add: empty_hit_st_def)

theorem cache_hit_short_circuit_witness:
  "cache hit_st (target_date dead_world None) =
     Some (Inr \<lparr>mtime = Some 63899990000000000,
                content = Some (JArr [JStr (u ''a''), JStr (u ''b''), JStr (u ''c'')])\<rparr>)
   \<and> fresh client0 dead_world \<lparr>mtime = Some 63899990000000000,
           content = Some (JArr [JStr (u ''a''), JStr (u ''b''), JStr (u ''c'')])\<rparr>
   \<and> fst (get_daily_keywords lib0 client0 dead_world None None 5 hit_st) =
       Inr [u ''a'', u ''b'', u ''c'']
   \<and> cache (snd (get_daily_keywords lib0 client0 dead_world None None 5 hit_st)) = cache hit_st
   \<and> trace (snd (get_daily_keywords lib0 client0 dead_world None None 5 hit_st)) =
       [CacheExists 739583, CacheStat 739583, CacheLoad 739583]"
proof -
  have c: "content \<lparr>mtime = Some 63899990000000000,
      content = Some (JArr [JStr (u ''a''), JStr (u ''b''), JStr (u ''c'')])\<rparr> =
      Some (JArr (JStr (u ''a'') # [JStr (u ''b''), JStr (u ''c'')]))"
    by simp
  have t: "trace hit_st = []" by (simp add: hit_st_def)
  from cache_hit_short_circuit [OF hit_entry fresh_hit c, of lib0 None 5] hit_entry
    fresh_hit [of "Some (JArr [JStr (u ''a''), JStr (u ''b''), JStr (u ''c'')])"] t
  show ?thesis
    by (simp add: py_take_def py_str_def)
qed

text \<open>The claim as stated fails for a fresh entry that decodes to the empty list: the
  primary source is asked and the cache is written.\<close>

theorem cache_hit_short_circuit_counterexample:
  "cache empty_hit_st (target_date dead_world None) =
     Some (Inr \<lparr>mtime = Some 63899990000000000, content = Some (JArr [])\<rparr>)
   \<and> fresh client0 dead_world \<lparr>mtime = Some 63899990000000000, content = Some (JArr [])\<rparr>
   \<and> TrendReq 1 \<in> set (trace (snd (get_daily_keywords lib0 client0 dead_world None None 3
                                      empty_hit_st)))
   \<and> CacheWrite 739583 (default_keywords lib0 dead_world (u ''KR'') 3)
       \<in> set (trace (snd (get_daily_keywords lib0 client0 dead_world None None 3 empty_hit_st)))"
proof -
  have nb: "use_naver_backup (cfg client0) \<longrightarrow>
      fst (fetch_from_naver_backup lib0 client0 dead_world 3) = []"
    by (simp add: dead_backup)
  have it: "\<forall>d. items_at (cache empty_hit_st) d = []" by simp
  have W: "max 1 (backfill_days (cfg client0)) * day_us \<le> now dead_world"
    by (simp add: client0_facts dead_facts)
  have rd: "map_sum id fst (fst (read_cache_if_fresh lib0 client0 dead_world (cache empty_hit_st)
      (target_date dead_world None))) \<in> {Inr None, Inr (Some [])}"
    by (simp add: read_empty_hit_st)
  have lk: "\<forall>d. lookup_error (cache empty_hit_st) d = None" by simp
  note q = quiet_call(2,3) [OF dead_facts(1,2) client0_facts(1,2,3) nb it W dead_facts(4) rd lk,
      of None]
  from q empty_hit_entry fresh_hit [of "Some (JArr [])"] show ?thesis
    by (simp add: client0_facts)
qed

theorem fresh_empty_entry_is_a_miss_witness:
  "cache empty_hit_st (target_date dead_world None) =
     Some (Inr \<lparr>mtime = Some 63899990000000000, content = Some (JArr [])\<rparr>)
   \<and> fresh client0 dead_world \<lparr>mtime = Some 63899990000000000, content = Some (JArr [])\<rparr>
   \<and> fst (get_daily_keywords lib0 client0 dead_world None None 3 empty_hit_st) =
       fst (get_daily_keywords lib0 client0 dead_world None None 3
              (empty_hit_st\<lparr>cache := (cache empty_hit_st)(target_date dead_world None := None)\<rparr>))
   \<and> set (snd (fetch_with_retry lib0 client0 dead_world (region_of lib0 client0 None) 3))
       \<subseteq> set (trace (snd (get_daily_keywords lib0 client0 dead_world None None 3 empty_hit_st)))
   \<and> write_outcome dead_world (target_date dead_world None) = WriteOk
   \<and> cache (write_cache dead_world (target_date dead_world None) [] empty_hit_st)
         (target_date dead_world None) =
       Some (Inr \<lparr>mtime = Some (now dead_world), content = Some (JArr [])\<rparr>)"
proof -
  have c: "content \<lparr>mtime = Some 63899990000000000, content = Some (JArr [])\<rparr> = Some (JArr [])"
    by simp
  have ok: "write_outcome dead_world (target_date dead_world None) = WriteOk"
    by (simp add: dead_world_def)
  from fresh_empty_entry_is_a_miss [OF empty_hit_entry fresh_hit c, of lib0 None 3]
    empty_hit_entry fresh_hit [of "Some (JArr [])"] ok
  show ?thesis by blast
qed

theorem defaults_tier_witness:
  "(\<forall>seed ys. length (shuffle lib0 seed ys) = length ys)
   \<and> fst (read_cache_if_fresh lib0 client0 dead_world (cache empty_st)
            (target_date dead_world None)) = Inr (None, MissNoFile)
   \<and> fst (fetch_with_retry lib0 client0 dead_world (region_of lib0 client0 None) 3) = Inr []
   \<and> fst (fetch_from_naver_backup lib0 client0 dead_world 3) = []
   \<and> fst (backfill_from_recent_cache lib0 client0 dead_world (cache empty_st) 3) = Inr []
   \<and> allow_defaults (cfg client0) \<and> (0::int) \<le> 3
   \<and> fst (get_daily_keywords lib0 client0 dead_world None None 3 empty_st) =
       Inr [[50724, 54536, 49548, 49828], u ''Supabase'', u ''Next.js'']
   \<and> length [[50724, 54536, 49548, 49828], u ''Supabase'', u ''Next.js''] = min (nat 3) 25"
proof -
  have r: "fst (read_cache_if_fresh lib0 client0 dead_world (cache empty_st)
      (target_date dead_world None)) = Inr (None, MissNoFile)"
    by (rule read_empty_st)
  then have rd: "map_sum id fst (fst (read_cache_if_fresh lib0 client0 dead_world (cache empty_st)
      (target_date dead_world None))) \<in> {Inr None, Inr (Some [])}"
    by simp
  have f: "fst (fetch_with_retry lib0 client0 dead_world (region_of lib0 client0 None) 3) = Inr []"
    by (simp add: all_fail_fetch [OF dead_facts(1,2) client0_facts(1,2,3)])
  have nb: "use_naver_backup (cfg client0) \<longrightarrow>
      fst (fetch_from_naver_backup lib0 client0 dead_world 3) = []"
    by (simp add: dead_backup)
  have W: "max 1 (backfill_days (cfg client0)) * day_us \<le> now dead_world"
    by (simp add: client0_facts dead_facts)
  have b: "fst (backfill_from_recent_cache lib0 client0 dead_world (cache empty_st) 3) = Inr []"
    by (rule no_backfill [OF _ W dead_facts(4)]) simp_all
  have l: "(0::int) \<le> 3" by simp
  from defaults_tier [OF shuffle_lib0 rd f nb b client0_facts(4) l] dead_call
  have n: "length [[50724, 54536, 49548, 49828], u ''Supabase'', u ''Next.js''] =
      min (nat 3) 25"
    by blast
  have k: "fst (fetch_from_naver_backup lib0 client0 dead_world 3) = []"
    by (simp add: dead_backup)
  from shuffle_lib0 r f k b client0_facts(4) l dead_call n show ?thesis
    by blast
qed

text \<open>The claim as stated fails for a limit below 5: five defaults are generated and the
  first three of them are returned.\<close>

theorem defaults_tier_counterexample:
  "fst (get_daily_keywords lib0 client0 dead_world None None 3 empty_st) =
     Inr [[50724, 54536, 49548, 49828], u ''Supabase'', u ''Next.js'']
   \<and> length (default_keywords lib0 dead_world (u ''KR'') 3) = nat (max 5 3)
   \<and> length [[50724, 54536, 49548, 49828], u ''Supabase'', u ''Next.js''] < nat (max 5 3)"
  using dead_call by (simp add: defaults_KR_3)

end
